theory Spec2Isabelle
  imports
    Main
    "HOL-Library.Char_ord"
    "HOL-Library.List_Lexorder"
    "HOL-Library.Product_Lexorder"
begin

section \<open>Dates\<close>

text \<open>
  The Python code computes on \<^verbatim>\<open>datetime.date\<close> values. A date is represented by its
  proleptic Gregorian ordinal, the number \<^verbatim>\<open>date.toordinal()\<close> returns: 0001-01-01 is
  day 1 and 9999-12-31 (\<^verbatim>\<open>date.max\<close>) is day 3652059.

  The store keeps every date in a TEXT column, in the format \<^verbatim>\<open>YYYY-MM-DD\<close>. Such a text
  is known by the day it names and by the way its year is written. \<open>Padded d\<close> is the
  text of day \<open>d\<close> with the year in four digits, \<^verbatim>\<open>0999-12-30\<close>: what a caller passes
  and what SQLite's \<^verbatim>\<open>date()\<close> returns. \<open>Unpadded d\<close> is the text of a day before the year
  1000 with the year in the digits it has, \<^verbatim>\<open>999-12-30\<close>: what \<^verbatim>\<open>strftime("%Y-%m-%d")\<close>
  writes for such a day, since \<^verbatim>\<open>%Y\<close> of the C library (glibc) does not pad the year. It
  is written for no other day. Texts of any other form are not represented.
\<close>

type_synonym date = int

datatype date_text = Padded date | Unpadded date

datatype error =
    ValueError string
  | OverflowError
  | IntegrityError

definition MAXORDINAL :: int where
  "MAXORDINAL = 3652059"

text \<open>A \<^verbatim>\<open>datetime.date\<close> exists for the ordinals 1 .. MAXORDINAL only.\<close>

definition py_date :: "int \<Rightarrow> bool" where
  "py_date d \<longleftrightarrow> 1 \<le> d \<and> d \<le> MAXORDINAL"

text \<open>The calendar arithmetic of CPython's \<^verbatim>\<open>datetime\<close> module (\<^verbatim>\<open>_is_leap\<close>,
  \<^verbatim>\<open>_days_before_year\<close>, \<^verbatim>\<open>_days_before_month\<close>, \<^verbatim>\<open>_ymd2ord\<close>),
  which names a day by year, month and day of the month.\<close>

definition is_leap :: "int \<Rightarrow> bool" where
  "is_leap y \<longleftrightarrow> y mod 4 = 0 \<and> (y mod 100 \<noteq> 0 \<or> y mod 400 = 0)"

definition days_before_year :: "int \<Rightarrow> int" where
  "days_before_year year = (let y = year - 1 in y * 365 + y div 4 - y div 100 + y div 400)"

definition DAYS_IN_MONTH :: "int list" where
  "DAYS_IN_MONTH = [- 1, 31, 28, 31, 30, 31, 30, 31, 31, 30, 31, 30, 31]"

definition DAYS_BEFORE_MONTH :: "int list" where
  "DAYS_BEFORE_MONTH = [- 1, 0, 31, 59, 90, 120, 151, 181, 212, 243, 273, 304, 334]"

definition days_before_month :: "int \<Rightarrow> int \<Rightarrow> int" where
  "days_before_month year month =
     DAYS_BEFORE_MONTH ! nat month + (if month > 2 \<and> is_leap year then 1 else 0)"

definition ymd2ord :: "int \<Rightarrow> int \<Rightarrow> int \<Rightarrow> int" where
  "ymd2ord year month day = days_before_year year + days_before_month year month + day"

text \<open>\<^verbatim>\<open>_ord2ymd\<close>, the way back, and the ISO text of a day: year, month and day
  in four, two and two decimal digits.\<close>

definition ord2ymd :: "int \<Rightarrow> int \<times> int \<times> int" where
  "ord2ymd ordinal =
     (let n0 = ordinal - 1;
          n400 = n0 div 146097; n1' = n0 mod 146097;
          n100 = n1' div 36524; n2 = n1' mod 36524;
          n4 = n2 div 1461; n3 = n2 mod 1461;
          n1 = n3 div 365; n = n3 mod 365;
          year = n400 * 400 + 1 + n100 * 100 + n4 * 4 + n1
      in if n1 = 4 \<or> n100 = 4 then (year - 1, 12, 31)
         else let leapyear = (n1 = 3 \<and> (n4 \<noteq> 24 \<or> n100 = 3));
                  month = (n + 50) div 32;
                  preceding = DAYS_BEFORE_MONTH ! nat month
                              + (if month > 2 \<and> leapyear then 1 else 0)
              in if preceding > n
                 then (year, month - 1,
                       n - (preceding - (DAYS_IN_MONTH ! nat (month - 1)
                                         + (if month - 1 = 2 \<and> leapyear then 1 else 0))) + 1)
                 else (year, month, n - preceding + 1))"

fun zero_padded :: "nat \<Rightarrow> int \<Rightarrow> string" where
  "zero_padded 0 n = []"
| "zero_padded (Suc width) n = zero_padded width (n div 10) @ [''0123456789'' ! nat (n mod 10)]"

definition iso_string :: "date \<Rightarrow> string" where
  "iso_string s =
     (case ord2ymd s of
        (year, month, day) \<Rightarrow>
          zero_padded 4 year @ ''-'' @ zero_padded 2 month @ ''-'' @ zero_padded 2 day)"

text \<open>The characters of a text. A year that is not padded has one digit below 10, two
  below 100, three below 1000. SQLite compares TEXT values byte by byte
  (\<^verbatim>\<open>BETWEEN\<close>, \<^verbatim>\<open><=\<close>, \<^verbatim>\<open>ORDER BY\<close>), which is the order of these strings.\<close>

definition unpadded :: "int \<Rightarrow> string" where
  "unpadded n =
     (if n < 10 then zero_padded 1 n
      else if n < 100 then zero_padded 2 n
      else if n < 1000 then zero_padded 3 n
      else zero_padded 4 n)"

definition text_of :: "date_text \<Rightarrow> string" where
  "text_of t =
     (case t of
        Padded d \<Rightarrow> iso_string d
      | Unpadded d \<Rightarrow>
          (case ord2ymd d of
             (year, month, day) \<Rightarrow>
               unpadded year @ ''-'' @ zero_padded 2 month @ ''-'' @ zero_padded 2 day))"

text \<open>The day a text names, and the text \<^verbatim>\<open>YYYY-MM-DD\<close> of a year, a month and a day
  of the month.\<close>

definition day_of :: "date_text \<Rightarrow> date" where
  "day_of t = (case t of Padded d \<Rightarrow> d | Unpadded d \<Rightarrow> d)"

definition iso :: "int \<Rightarrow> int \<Rightarrow> int \<Rightarrow> date_text" where
  "iso year month day = Padded (ymd2ord year month day)"

text \<open>\<^verbatim>\<open>date.weekday()\<close>: Monday is 0, Sunday is 6.\<close>

definition weekday :: "date \<Rightarrow> int" where
  "weekday d = (d + 6) mod 7"

text \<open>\<^verbatim>\<open>date + timedelta(days=n)\<close>: the sum of the ordinals, and OverflowError when
  it leaves the range of \<^verbatim>\<open>datetime.date\<close>.\<close>

definition date_add_days :: "date \<Rightarrow> int \<Rightarrow> error + date" where
  "date_add_days d n =
     (let o' = d + n in if 0 < o' \<and> o' \<le> MAXORDINAL then Inr o' else Inl OverflowError)"

text \<open>\<^verbatim>\<open>datetime.strptime(s, "%Y-%m-%d").date()\<close>: \<^verbatim>\<open>%Y\<close> reads four digits, so the
  result is the day a padded text names, and ValueError on a text whose year is not
  padded or that names no \<^verbatim>\<open>datetime.date\<close> (year 0000).\<close>

definition strptime :: "date_text \<Rightarrow> error + date" where
  "strptime s =
     (case s of
        Padded d \<Rightarrow>
          if py_date d then Inr d else Inl (ValueError ''time data does not match format'')
      | Unpadded d \<Rightarrow> Inl (ValueError ''time data does not match format''))"

text \<open>The texts \<^verbatim>\<open>strptime\<close> reads.\<close>

definition names_date :: "date_text \<Rightarrow> bool" where
  "names_date s = (case s of Padded d \<Rightarrow> py_date d | Unpadded d \<Rightarrow> False)"

text \<open>\<^verbatim>\<open>d.strftime("%Y-%m-%d")\<close>: the text of the day, the year in four digits from
  1000-01-01 on and not padded before.\<close>

definition strftime :: "date \<Rightarrow> date_text" where
  "strftime d = (if d < ymd2ord 1000 1 1 then Unpadded d else Padded d)"

subsection \<open>SQLite's date function\<close>

text \<open>
  \<^verbatim>\<open>date(X, 'weekday 0', '-6 days')\<close>. SQLite reads a text with a year of four digits,
  from 0000 to 9999 (ordinals -365 .. MAXORDINAL), and answers NULL on a year that is not
  padded. The result is a text with the year in four digits. The modifier
  \<^verbatim>\<open>weekday N\<close> computes the day of the week \<^verbatim>\<open>Z = ((iJD + 129600000) / 86400000) % 7\<close>
  (Sunday is 0) from the Julian day in milliseconds, lowers \<^verbatim>\<open>Z\<close> by 7 when it is above
  \<^verbatim>\<open>N\<close>, and moves the date forward by \<^verbatim>\<open>N - Z\<close> days. The Julian day number of ordinal
  \<open>t\<close> at noon is \<open>t + 1721425\<close>, so \<^verbatim>\<open>Z\<close> is \<open>(t + 1721426) mod 7\<close>.
\<close>

definition sqlite_min_ordinal :: int where
  "sqlite_min_ordinal = - 365"

definition sqlite_weekday_modifier :: "int \<Rightarrow> int \<Rightarrow> int" where
  "sqlite_weekday_modifier n t =
     (let Z = (t + 1721426) mod 7;
          Z' = (if Z > n then Z - 7 else Z)
      in t + (n - Z'))"

definition sqlite_days_modifier :: "int \<Rightarrow> int \<Rightarrow> int" where
  "sqlite_days_modifier n t = t + n"

definition sql_week_start :: "date_text \<Rightarrow> date_text option" where
  "sql_week_start s =
     (case s of
        Padded t \<Rightarrow>
          if sqlite_min_ordinal \<le> t \<and> t \<le> MAXORDINAL
          then Some (Padded (sqlite_days_modifier (- 6) (sqlite_weekday_modifier 0 t)))
          else None
      | Unpadded t \<Rightarrow> None)"

section \<open>Week boundaries (app.py)\<close>

text \<open>\<^verbatim>\<open>get_week_dates(reference_date)\<close>: the Monday of the week of the reference date
  and the four days after it.\<close>

fun add_each :: "date \<Rightarrow> int list \<Rightarrow> error + date list" where
  "add_each monday [] = Inr []"
| "add_each monday (i # is) =
     (case date_add_days monday i of
        Inl e \<Rightarrow> Inl e
      | Inr d \<Rightarrow> (case add_each monday is of Inl e \<Rightarrow> Inl e | Inr ds \<Rightarrow> Inr (d # ds)))"

definition get_week_dates :: "date \<Rightarrow> error + date list" where
  "get_week_dates reference_date =
     (let days_since_monday = weekday reference_date in
      case date_add_days reference_date (- days_since_monday) of
        Inl e \<Rightarrow> Inl e
      | Inr monday \<Rightarrow> add_each monday [0, 1, 2, 3, 4])"

section \<open>The store (database.py)\<close>

text \<open>
  One record per table of \<^verbatim>\<open>init_db\<close>, a column that may be NULL as an option. A table is
  the list of its rows in insertion order. The two tables this development inserts into
  carry the counter of their AUTOINCREMENT key (the row of \<^verbatim>\<open>sqlite_sequence\<close>): the key of
  a new row is the counter plus one, and a statement that fails leaves the counter alone.
  Keys are SQLite INTEGER values, signed 64-bit integers, written as \<open>int\<close>. The keys of
  the rows of a table are such integers. The keys \<^verbatim>\<open>add_schedule\<close> and
  \<^verbatim>\<open>set_weekly_responsibility\<close> are given are keys of rows that the caller read from the
  store.
\<close>

record team_row =
  t_id :: int
  t_name :: string
  t_description :: "string option"
  t_color :: string

record role_row =
  r_id :: int
  r_name :: string
  r_color :: string
  r_team_id :: "int option"

record member_row =
  m_id :: int
  m_name :: string
  m_role_id :: "int option"
  m_team_id :: "int option"
  m_shift_id :: "int option"
  m_active :: bool

record responsibility_row =
  p_id :: int
  p_name :: string
  p_color :: string
  p_description :: "string option"

record shift_row =
  sh_id :: int
  sh_name :: string
  sh_start_time :: string
  sh_end_time :: string

record weekly_row =
  w_id :: int
  w_week_start_date :: date_text
  w_member_id :: int
  w_responsibility_id :: "int option"

record schedule_row =
  s_id :: int
  s_date :: date_text
  s_shift_id :: int
  s_member_id :: int

record absence_row =
  a_id :: int
  a_member_id :: int
  a_start_date :: date_text
  a_end_date :: date_text
  a_reason :: string

record store =
  teams :: "team_row list"
  roles :: "role_row list"
  team_members :: "member_row list"
  responsibilities :: "responsibility_row list"
  shifts :: "shift_row list"
  weekly_responsibilities :: "weekly_row list"
  schedules :: "schedule_row list"
  absences :: "absence_row list"
  weekly_seq :: int
  schedules_seq :: int

text \<open>
  \<^verbatim>\<open>get_connection()\<close> is \<^verbatim>\<open>sqlite3.connect(DB_FILE)\<close> with a row factory and nothing
  else. SQLite enforces the FOREIGN KEY clauses of the schema only on a connection that
  has run \<^verbatim>\<open>PRAGMA foreign_keys = ON\<close>; the source never does, so every connection has
  the setting at its default, off. PRIMARY KEY, UNIQUE and NOT NULL are always enforced.
\<close>

record connection =
  foreign_keys :: bool

definition get_connection :: connection where
  "get_connection = \<lparr>foreign_keys = False\<rparr>"

text \<open>An operation returns \<open>Inl\<close> of the exception it raises, and then the database is
  as it was before the call (nothing was committed), or \<open>Inr\<close> of its result together
  with the database it committed.\<close>

subsection \<open>DELETE FROM table WHERE id = ?\<close>

text \<open>The key is a parameter of the statement, any Python int. \<^verbatim>\<open>cursor.execute\<close>
  binds it as a SQLite INTEGER and raises OverflowError ("Python int too large to convert
  to SQLite INTEGER") on an int outside the signed 64-bit range.\<close>

definition sqlite_integer :: "int \<Rightarrow> bool" where
  "sqlite_integer i \<longleftrightarrow> - (2 ^ 63) \<le> i \<and> i < 2 ^ 63"

text \<open>The statement removes the rows with that key. With foreign keys on it fails when
  a row it would remove is still referenced.\<close>

definition sql_delete ::
  "connection \<Rightarrow> ('r \<Rightarrow> int) \<Rightarrow> bool \<Rightarrow> int \<Rightarrow> 'r list \<Rightarrow> error + 'r list" where
  "sql_delete conn key referenced i rows =
     (if \<not> sqlite_integer i then Inl OverflowError
      else if foreign_keys conn \<and> list_ex (\<lambda>r. key r = i) rows \<and> referenced
      then Inl IntegrityError
      else Inr (filter (\<lambda>r. key r \<noteq> i) rows))"

definition team_referenced :: "store \<Rightarrow> int \<Rightarrow> bool" where
  "team_referenced db i \<longleftrightarrow>
     list_ex (\<lambda>r. r_team_id r = Some i) (roles db)
     \<or> list_ex (\<lambda>m. m_team_id m = Some i) (team_members db)"

definition role_referenced :: "store \<Rightarrow> int \<Rightarrow> bool" where
  "role_referenced db i \<longleftrightarrow> list_ex (\<lambda>m. m_role_id m = Some i) (team_members db)"

definition member_referenced :: "store \<Rightarrow> int \<Rightarrow> bool" where
  "member_referenced db i \<longleftrightarrow>
     list_ex (\<lambda>w. w_member_id w = i) (weekly_responsibilities db)
     \<or> list_ex (\<lambda>s. s_member_id s = i) (schedules db)
     \<or> list_ex (\<lambda>a. a_member_id a = i) (absences db)"

definition responsibility_referenced :: "store \<Rightarrow> int \<Rightarrow> bool" where
  "responsibility_referenced db i \<longleftrightarrow>
     list_ex (\<lambda>w. w_responsibility_id w = Some i) (weekly_responsibilities db)"

definition delete_team :: "store \<Rightarrow> int \<Rightarrow> error + store" where
  "delete_team db team_id =
     (case sql_delete get_connection t_id (team_referenced db team_id) team_id (teams db) of
        Inl e \<Rightarrow> Inl e
      | Inr rows \<Rightarrow> Inr (db\<lparr>teams := rows\<rparr>))"

definition delete_role :: "store \<Rightarrow> int \<Rightarrow> error + store" where
  "delete_role db role_id =
     (case sql_delete get_connection r_id (role_referenced db role_id) role_id (roles db) of
        Inl e \<Rightarrow> Inl e
      | Inr rows \<Rightarrow> Inr (db\<lparr>roles := rows\<rparr>))"

definition delete_team_member :: "store \<Rightarrow> int \<Rightarrow> error + store" where
  "delete_team_member db member_id =
     (case sql_delete get_connection m_id (member_referenced db member_id) member_id
             (team_members db) of
        Inl e \<Rightarrow> Inl e
      | Inr rows \<Rightarrow> Inr (db\<lparr>team_members := rows\<rparr>))"

definition delete_responsibility :: "store \<Rightarrow> int \<Rightarrow> error + store" where
  "delete_responsibility db resp_id =
     (case sql_delete get_connection p_id (responsibility_referenced db resp_id) resp_id
             (responsibilities db) of
        Inl e \<Rightarrow> Inl e
      | Inr rows \<Rightarrow> Inr (db\<lparr>responsibilities := rows\<rparr>))"

definition delete_schedule :: "store \<Rightarrow> int \<Rightarrow> error + store" where
  "delete_schedule db schedule_id =
     (case sql_delete get_connection s_id False schedule_id (schedules db) of
        Inl e \<Rightarrow> Inl e
      | Inr rows \<Rightarrow> Inr (db\<lparr>schedules := rows\<rparr>))"

definition delete_absence :: "store \<Rightarrow> int \<Rightarrow> error + store" where
  "delete_absence db absence_id =
     (case sql_delete get_connection a_id False absence_id (absences db) of
        Inl e \<Rightarrow> Inl e
      | Inr rows \<Rightarrow> Inr (db\<lparr>absences := rows\<rparr>))"

text \<open>\<^verbatim>\<open>get_all_teams\<close>: \<^verbatim>\<open>SELECT * FROM teams ORDER BY name\<close>.\<close>

definition get_all_teams :: "store \<Rightarrow> team_row list" where
  "get_all_teams db = sort_key t_name (teams db)"

subsection \<open>INSERT INTO schedules\<close>

text \<open>The statement fails with \<^verbatim>\<open>sqlite3.IntegrityError\<close> on a row that is already there
  (\<^verbatim>\<open>UNIQUE(date, shift_id, member_id)\<close>) and, with foreign keys on, on a shift or member
  that does not exist.\<close>

definition schedule_key :: "schedule_row \<Rightarrow> date_text \<times> int \<times> int" where
  "schedule_key s = (s_date s, s_shift_id s, s_member_id s)"

definition insert_schedule ::
  "connection \<Rightarrow> store \<Rightarrow> date_text \<Rightarrow> int \<Rightarrow> int \<Rightarrow> error + (int \<times> store)" where
  "insert_schedule conn db date_str shift_id member_id =
     (if (date_str, shift_id, member_id) \<in> set (map schedule_key (schedules db))
      then Inl IntegrityError
      else if foreign_keys conn
           \<and> \<not> (list_ex (\<lambda>sh. sh_id sh = shift_id) (shifts db)
                \<and> list_ex (\<lambda>m. m_id m = member_id) (team_members db))
      then Inl IntegrityError
      else let rowid = schedules_seq db + 1 in
        Inr (rowid,
             db\<lparr>schedules := schedules db @
                   [\<lparr>s_id = rowid, s_date = date_str, s_shift_id = shift_id,
                     s_member_id = member_id\<rparr>],
                 schedules_seq := rowid\<rparr>))"

text \<open>\<^verbatim>\<open>add_schedule\<close> turns the IntegrityError of the insert into a ValueError and
  returns \<^verbatim>\<open>cursor.lastrowid\<close>.\<close>

definition already_scheduled :: string where
  "already_scheduled = ''This member is already scheduled for this shift on this date''"

definition add_schedule :: "store \<Rightarrow> date_text \<Rightarrow> int \<Rightarrow> int \<Rightarrow> error + (int \<times> store)" where
  "add_schedule db date_str shift_id member_id =
     (case insert_schedule get_connection db date_str shift_id member_id of
        Inr (schedule_id, db') \<Rightarrow> Inr (schedule_id, db')
      | Inl IntegrityError \<Rightarrow> Inl (ValueError already_scheduled)
      | Inl e \<Rightarrow> Inl e)"

subsection \<open>Weekly responsibilities\<close>

text \<open>
  \<^verbatim>\<open>set_weekly_responsibility\<close>: one \<^verbatim>\<open>INSERT ... ON CONFLICT(week_start_date, member_id)
  DO UPDATE SET responsibility_id = EXCLUDED.responsibility_id\<close>. The key SQLite
  generates for the row is used up on both paths.
\<close>

definition weekly_key :: "weekly_row \<Rightarrow> date_text \<times> int" where
  "weekly_key w = (w_week_start_date w, w_member_id w)"

definition upsert_weekly ::
  "connection \<Rightarrow> store \<Rightarrow> date_text \<Rightarrow> int \<Rightarrow> int option \<Rightarrow> error + store" where
  "upsert_weekly conn db week_start_date member_id responsibility_id =
     (if foreign_keys conn
         \<and> \<not> (list_ex (\<lambda>m. m_id m = member_id) (team_members db)
              \<and> (case responsibility_id of
                    None \<Rightarrow> True
                  | Some i \<Rightarrow> list_ex (\<lambda>p. p_id p = i) (responsibilities db)))
      then Inl IntegrityError
      else let rowid = weekly_seq db + 1 in
        if (week_start_date, member_id) \<in> set (map weekly_key (weekly_responsibilities db))
        then Inr (db\<lparr>weekly_responsibilities :=
                       map (\<lambda>w. if weekly_key w = (week_start_date, member_id)
                                 then w\<lparr>w_responsibility_id := responsibility_id\<rparr> else w)
                         (weekly_responsibilities db),
                     weekly_seq := rowid\<rparr>)
        else Inr (db\<lparr>weekly_responsibilities := weekly_responsibilities db @
                       [\<lparr>w_id = rowid, w_week_start_date = week_start_date,
                         w_member_id = member_id, w_responsibility_id = responsibility_id\<rparr>],
                     weekly_seq := rowid\<rparr>))"

definition set_weekly_responsibility ::
  "store \<Rightarrow> date_text \<Rightarrow> int \<Rightarrow> int option \<Rightarrow> error + store" where
  "set_weekly_responsibility db week_start_date member_id responsibility_id =
     upsert_weekly get_connection db week_start_date member_id responsibility_id"

subsection \<open>Schedules of a date range\<close>

text \<open>A row of the result of \<^verbatim>\<open>get_schedules_for_date_range\<close>: the columns of
  \<^verbatim>\<open>s.*\<close> and the seven named ones.\<close>

record schedule_view =
  v_id :: int
  v_date :: date_text
  v_shift_id :: int
  v_member_id :: int
  v_member_name :: string
  v_role_name :: "string option"
  v_shift_name :: string
  v_start_time :: string
  v_end_time :: string
  v_responsibility_name :: "string option"
  v_responsibility_color :: "string option"

text \<open>\<^verbatim>\<open>LEFT JOIN\<close>: the matching rows of the right table, and one row of NULLs when
  there is none.\<close>

definition left_join :: "('b \<Rightarrow> bool) \<Rightarrow> 'b list \<Rightarrow> 'b option list" where
  "left_join on rows = (case filter on rows of [] \<Rightarrow> [None] | ms \<Rightarrow> map Some ms)"

definition make_view ::
  "schedule_row \<Rightarrow> member_row \<Rightarrow> role_row option \<Rightarrow> shift_row \<Rightarrow>
   responsibility_row option \<Rightarrow> schedule_view" where
  "make_view s tm r sh resp =
     \<lparr>v_id = s_id s, v_date = s_date s, v_shift_id = s_shift_id s, v_member_id = s_member_id s,
      v_member_name = m_name tm,
      v_role_name = map_option r_name r,
      v_shift_name = sh_name sh, v_start_time = sh_start_time sh, v_end_time = sh_end_time sh,
      v_responsibility_name = map_option p_name resp,
      v_responsibility_color = map_option p_color resp\<rparr>"

text \<open>
  The query joins, from left to right, schedules with team_members (inner), roles
  (left), shifts (inner), weekly_responsibilities (left, on the member and on
  \<^verbatim>\<open>wr.week_start_date = date(s.date, 'weekday 0', '-6 days')\<close>) and responsibilities
  (left), keeps the rows with \<^verbatim>\<open>s.date BETWEEN ? AND ?\<close> and orders them by
  \<^verbatim>\<open>s.date, sh.start_time, tm.name\<close>. Its common table expression is never referenced.
  Rows that agree on the three sort keys stay in the order of the join.
\<close>

definition joined_schedules :: "store \<Rightarrow> date_text \<Rightarrow> date_text \<Rightarrow> schedule_view list" where
  "joined_schedules db start_date end_date =
     [make_view s tm r sh resp.
        s \<leftarrow> schedules db,
        tm \<leftarrow> team_members db, s_member_id s = m_id tm,
        r \<leftarrow> left_join (\<lambda>r. m_role_id tm = Some (r_id r)) (roles db),
        sh \<leftarrow> shifts db, s_shift_id s = sh_id sh,
        wr \<leftarrow> left_join (\<lambda>wr. m_id tm = w_member_id wr
                \<and> Some (w_week_start_date wr) = sql_week_start (s_date s))
              (weekly_responsibilities db),
        resp \<leftarrow> left_join (\<lambda>resp. (case wr of None \<Rightarrow> False
                | Some w \<Rightarrow> w_responsibility_id w = Some (p_id resp)))
              (responsibilities db),
        text_of start_date \<le> text_of (s_date s) \<and> text_of (s_date s) \<le> text_of end_date]"

definition get_schedules_for_date_range ::
  "store \<Rightarrow> date_text \<Rightarrow> date_text \<Rightarrow> schedule_view list" where
  "get_schedules_for_date_range db start_date end_date =
     sort_key (\<lambda>v. (text_of (v_date v), v_start_time v, v_member_name v))
       (joined_schedules db start_date end_date)"

subsection \<open>Absent dates\<close>

text \<open>
  Both \<^verbatim>\<open>auto_populate_schedules_for_date_range\<close> and \<^verbatim>\<open>show_dashboard\<close> build a
  dictionary from a member to the list of the dates the member is absent, with the same
  loop over the absences (member, start date, end date): parse both dates, create the
  member's list when it is missing, and append every date from the start to the end,
  one day at a time.
\<close>

type_synonym absence_map = "int \<rightharpoonup> date list"

function append_absent_dates :: "date \<Rightarrow> date \<Rightarrow> date list \<Rightarrow> error + date list" where
  "append_absent_dates current abs_end listed =
     (if current \<le> abs_end
      then (case date_add_days current 1 of
              Inl e \<Rightarrow> Inl e
            | Inr nxt \<Rightarrow> append_absent_dates nxt abs_end (listed @ [current]))
      else Inr listed)"
  by pat_completeness auto
termination
  by (relation "measure (\<lambda>(current, abs_end, listed). nat (abs_end + 1 - current))")
    (auto simp: date_add_days_def Let_def split: if_splits)

declare append_absent_dates.simps [simp del]

fun build_absence_map ::
  "(int \<times> date_text \<times> date_text) list \<Rightarrow> absence_map \<Rightarrow> error + absence_map" where
  "build_absence_map [] absence_map = Inr absence_map"
| "build_absence_map ((member_id, start_date, end_date) # rest) absence_map =
     (case strptime start_date of
        Inl e \<Rightarrow> Inl e
      | Inr abs_start \<Rightarrow>
     (case strptime end_date of
        Inl e \<Rightarrow> Inl e
      | Inr abs_end \<Rightarrow>
     (case append_absent_dates abs_start abs_end
             (case absence_map member_id of None \<Rightarrow> [] | Some listed \<Rightarrow> listed) of
        Inl e \<Rightarrow> Inl e
      | Inr listed \<Rightarrow> build_absence_map rest (absence_map(member_id \<mapsto> listed)))))"

text \<open>\<^verbatim>\<open>member_id in absence_map and current_date in absence_map[member_id]\<close>\<close>

definition is_absent :: "absence_map \<Rightarrow> int \<Rightarrow> date \<Rightarrow> bool" where
  "is_absent absence_map member_id d =
     (case absence_map member_id of None \<Rightarrow> False | Some listed \<Rightarrow> d \<in> set listed)"

subsection \<open>Bulk population\<close>

text \<open>The loop over the members on one date: an absent member is skipped, an insert
  that raises IntegrityError is passed over, any other insert counts.\<close>

fun populate_members ::
  "(int \<times> int) list \<Rightarrow> absence_map \<Rightarrow> date \<Rightarrow> store \<times> nat \<Rightarrow> error + (store \<times> nat)" where
  "populate_members [] absence_map current_date st = Inr st"
| "populate_members ((member_id, shift_id) # rest) absence_map current_date (db, created) =
     (if is_absent absence_map member_id current_date
      then populate_members rest absence_map current_date (db, created)
      else (case insert_schedule get_connection db (strftime current_date) shift_id member_id of
              Inr (rowid, db') \<Rightarrow> populate_members rest absence_map current_date (db', created + 1)
            | Inl IntegrityError \<Rightarrow> populate_members rest absence_map current_date (db, created)
            | Inl e \<Rightarrow> Inl e))"

text \<open>The loop over the dates, Monday (0) to Friday (4) only.\<close>

function populate_dates ::
  "date \<Rightarrow> date \<Rightarrow> (int \<times> int) list \<Rightarrow> absence_map \<Rightarrow> store \<times> nat \<Rightarrow> error + (store \<times> nat)"
  where
  "populate_dates current_date end_dt members absence_map st =
     (if current_date \<le> end_dt
      then (case (if weekday current_date < 5
                  then populate_members members absence_map current_date st
                  else Inr st) of
              Inl e \<Rightarrow> Inl e
            | Inr st' \<Rightarrow>
                (case date_add_days current_date 1 of
                   Inl e \<Rightarrow> Inl e
                 | Inr nxt \<Rightarrow> populate_dates nxt end_dt members absence_map st'))
      else Inr st)"
  by pat_completeness auto
termination
  by (relation "measure (\<lambda>(current_date, end_dt, members, absence_map, st).
        nat (end_dt + 1 - current_date))")
    (auto simp: date_add_days_def Let_def split: if_splits)

declare populate_dates.simps [simp del]

definition members_with_shifts :: "store \<Rightarrow> (int \<times> int) list" where
  "members_with_shifts db =
     List.map_filter
       (\<lambda>m. if m_active m then map_option (\<lambda>shift_id. (m_id m, shift_id)) (m_shift_id m)
            else None)
       (team_members db)"

definition overlapping_absences :: "store \<Rightarrow> date_text \<Rightarrow> date_text \<Rightarrow> (int \<times> date_text \<times> date_text) list"
  where
  "overlapping_absences db start_date end_date =
     map (\<lambda>a. (a_member_id a, a_start_date a, a_end_date a))
       (filter (\<lambda>a. text_of (a_start_date a) \<le> text_of end_date
                    \<and> text_of (a_end_date a) \<ge> text_of start_date)
          (absences db))"

definition auto_populate_schedules_for_date_range ::
  "store \<Rightarrow> date_text \<Rightarrow> date_text \<Rightarrow> error + (nat \<times> store)" where
  "auto_populate_schedules_for_date_range db start_date end_date =
     (case build_absence_map (overlapping_absences db start_date end_date) Map.empty of
        Inl e \<Rightarrow> Inl e
      | Inr absence_map \<Rightarrow>
     (case strptime start_date of
        Inl e \<Rightarrow> Inl e
      | Inr start_dt \<Rightarrow>
     (case strptime end_date of
        Inl e \<Rightarrow> Inl e
      | Inr end_dt \<Rightarrow>
     (case populate_dates start_dt end_dt (members_with_shifts db) absence_map (db, 0) of
        Inl e \<Rightarrow> Inl e
      | Inr (db', schedules_created) \<Rightarrow> Inr (schedules_created, db')))))"

section \<open>Conflict detection (app.py)\<close>

text \<open>A row of \<^verbatim>\<open>get_absences_for_date_range\<close>: the absence and the member's name.\<close>

record absence_view = absence_row +
  a_member_name :: string

text \<open>The loop of \<^verbatim>\<open>show_dashboard\<close> over the schedules: a schedule whose member is
  absent on its date adds the line \<^verbatim>\<open>f"{schedule['member_name']} on {schedule['date']}"\<close>.\<close>

fun check_conflicts :: "schedule_view list \<Rightarrow> absence_map \<Rightarrow> string list \<Rightarrow> error + string list"
  where
  "check_conflicts [] absent_dates conflicts = Inr conflicts"
| "check_conflicts (schedule # rest) absent_dates conflicts =
     (case strptime (v_date schedule) of
        Inl e \<Rightarrow> Inl e
      | Inr schedule_date \<Rightarrow>
          if is_absent absent_dates (v_member_id schedule) schedule_date
          then check_conflicts rest absent_dates
                 (conflicts @ [v_member_name schedule @ '' on '' @ text_of (v_date schedule)])
          else check_conflicts rest absent_dates conflicts)"

text \<open>The block runs under \<^verbatim>\<open>if all_schedules and all_absences\<close>; without it there is
  nothing to report.\<close>

definition scheduling_conflicts ::
  "schedule_view list \<Rightarrow> 'a absence_view_scheme list \<Rightarrow> error + string list" where
  "scheduling_conflicts all_schedules all_absences =
     (if all_schedules \<noteq> [] \<and> all_absences \<noteq> []
      then (case build_absence_map
                   (map (\<lambda>a. (a_member_id a, a_start_date a, a_end_date a)) all_absences)
                   Map.empty of
              Inl e \<Rightarrow> Inl e
            | Inr absent_dates \<Rightarrow> check_conflicts all_schedules absent_dates [])
      else Inr [])"

section \<open>Example data\<close>

text \<open>The store \<^verbatim>\<open>init_db\<close> leaves on a new database file: empty tables and the four
  default shifts.\<close>

definition initial_store :: store where
  "initial_store =
     \<lparr>teams = [], roles = [], team_members = [], responsibilities = [],
      shifts =
        [\<lparr>sh_id = 1, sh_name = ''Early'', sh_start_time = ''07:00'', sh_end_time = ''15:00''\<rparr>,
         \<lparr>sh_id = 2, sh_name = ''Late'', sh_start_time = ''14:00'', sh_end_time = ''22:00''\<rparr>,
         \<lparr>sh_id = 3, sh_name = ''Day'', sh_start_time = ''07:00'', sh_end_time = ''17:00''\<rparr>,
         \<lparr>sh_id = 4, sh_name = ''day_2'', sh_start_time = ''09:00'', sh_end_time = ''17:00''\<rparr>],
      weekly_responsibilities = [], schedules = [], absences = [],
      weekly_seq = 0, schedules_seq = 0\<rparr>"

text \<open>The team Ops and its member Alice, active, with the default shift Early.\<close>

definition ops_team :: team_row where
  "ops_team = \<lparr>t_id = 1, t_name = ''Ops'', t_description = Some [], t_color = ''#4facfe''\<rparr>"

definition alice :: member_row where
  "alice = \<lparr>m_id = 1, m_name = ''Alice'', m_role_id = None, m_team_id = Some 1,
             m_shift_id = Some 1, m_active = True\<rparr>"

definition ops_store :: store where
  "ops_store = initial_store\<lparr>teams := [ops_team], team_members := [alice]\<rparr>"

text \<open>The same with a role of the team Ops.\<close>

definition ops_role :: role_row where
  "ops_role = \<lparr>r_id = 1, r_name = ''Dispenser'', r_color = ''#00f2fe'', r_team_id = Some 1\<rparr>"

definition ops_store_with_role :: store where
  "ops_store_with_role = ops_store\<lparr>roles := [ops_role]\<rparr>"

section \<open>Sequences of calls\<close>

text \<open>A list of \<^verbatim>\<open>set_weekly_responsibility\<close> calls (week start, member,
  responsibility), run in order on the store each call leaves.\<close>

fun set_weekly_responsibilities ::
  "store \<Rightarrow> (date_text \<times> int \<times> int option) list \<Rightarrow> error + store" where
  "set_weekly_responsibilities db [] = Inr db"
| "set_weekly_responsibilities db ((week_start_date, member_id, responsibility_id) # calls) =
     (case set_weekly_responsibility db week_start_date member_id responsibility_id of
        Inl e \<Rightarrow> Inl e
      | Inr db' \<Rightarrow> set_weekly_responsibilities db' calls)"

text \<open>The responsibility passed by the last call of the list for a (week start, member)
  pair, when there is such a call.\<close>

fun latest_call :: "(date_text \<times> int \<times> int option) list \<Rightarrow> date_text \<times> int \<Rightarrow> int option option"
  where
  "latest_call [] k = None"
| "latest_call ((week_start_date, member_id, responsibility_id) # calls) k =
     (case latest_call calls k of
        Some r \<Rightarrow> Some r
      | None \<Rightarrow> if (week_start_date, member_id) = k then Some responsibility_id else None)"

text \<open>The responsibility column of the stored rows of a (week start, member) pair.\<close>

definition stored_responsibilities :: "store \<Rightarrow> date_text \<times> int \<Rightarrow> int option list" where
  "stored_responsibilities db k =
     map w_responsibility_id (filter (\<lambda>w. weekly_key w = k) (weekly_responsibilities db))"

section \<open>The schedule view, as the specification describes it\<close>

text \<open>The keys SQLite keeps unique: the PRIMARY KEY of the tables the query reads and
  \<^verbatim>\<open>UNIQUE(week_start_date, member_id)\<close>.\<close>

definition primary_keys :: "store \<Rightarrow> bool" where
  "primary_keys db \<longleftrightarrow>
     distinct (map m_id (team_members db)) \<and> distinct (map sh_id (shifts db))
     \<and> distinct (map r_id (roles db)) \<and> distinct (map p_id (responsibilities db))
     \<and> distinct (map weekly_key (weekly_responsibilities db))
     \<and> distinct (map s_id (schedules db))"

text \<open>The resolved responsibility of a member on a date: the responsibility of the
  weekly row stored for the Monday of the date's week and the member, if there is such a
  row, it names a responsibility and that responsibility exists.\<close>

definition resolved_responsibility :: "store \<Rightarrow> date_text \<Rightarrow> int \<Rightarrow> responsibility_row option"
  where
  "resolved_responsibility db d member_id =
     (case sql_week_start d of
        None \<Rightarrow> None
      | Some week_start \<Rightarrow>
     (case find (\<lambda>w. weekly_key w = (week_start, member_id)) (weekly_responsibilities db) of
        None \<Rightarrow> None
      | Some w \<Rightarrow>
     (case w_responsibility_id w of
        None \<Rightarrow> None
      | Some i \<Rightarrow> find (\<lambda>p. p_id p = i) (responsibilities db))))"

text \<open>The view of one schedule row: its own columns, the member's name and role, the
  shift's name and times, and the resolved responsibility. There is none when the
  member or the shift of the row does not exist.\<close>

definition view_of :: "store \<Rightarrow> schedule_row \<Rightarrow> schedule_view option" where
  "view_of db s =
     (case find (\<lambda>tm. m_id tm = s_member_id s) (team_members db) of
        None \<Rightarrow> None
      | Some tm \<Rightarrow>
     (case find (\<lambda>sh. sh_id sh = s_shift_id s) (shifts db) of
        None \<Rightarrow> None
      | Some sh \<Rightarrow>
          Some (make_view s tm
                 (case m_role_id tm of None \<Rightarrow> None | Some i \<Rightarrow> find (\<lambda>r. r_id r = i) (roles db))
                 sh
                 (resolved_responsibility db (s_date s) (s_member_id s)))))"

text \<open>The schedule rows of a date range, both ends included, whose member and shift
  exist.\<close>

definition shown_rows :: "store \<Rightarrow> date_text \<Rightarrow> date_text \<Rightarrow> schedule_row list" where
  "shown_rows db start_date end_date =
     filter (\<lambda>s. text_of start_date \<le> text_of (s_date s)
               \<and> text_of (s_date s) \<le> text_of end_date
               \<and> s_member_id s \<in> set (map m_id (team_members db))
               \<and> s_shift_id s \<in> set (map sh_id (shifts db)))
       (schedules db)"


text \<open>Alice with the responsibility On-call in the week of Monday 2024-06-03, scheduled
  on Tuesday 2024-06-04 and on Tuesday 2024-06-11.\<close>

definition on_call :: responsibility_row where
  "on_call = \<lparr>p_id = 1, p_name = ''On-call'', p_color = ''#ff6b6b'', p_description = Some []\<rparr>"

definition rota_store :: store where
  "rota_store = ops_store
     \<lparr>responsibilities := [on_call],
      weekly_responsibilities :=
        [\<lparr>w_id = 1, w_week_start_date = iso 2024 6 3, w_member_id = 1,
          w_responsibility_id = Some 1\<rparr>],
      schedules :=
        [\<lparr>s_id = 1, s_date = iso 2024 6 4, s_shift_id = 1, s_member_id = 1\<rparr>,
         \<lparr>s_id = 2, s_date = iso 2024 6 11, s_shift_id = 1, s_member_id = 1\<rparr>],
      weekly_seq := 1, schedules_seq := 2\<rparr>"

text \<open>The same after the responsibility of the week of Monday 2024-06-10 is set.\<close>

definition rota_store_next_week :: store where
  "rota_store_next_week = rota_store
     \<lparr>weekly_responsibilities := weekly_responsibilities rota_store @
        [\<lparr>w_id = 2, w_week_start_date = iso 2024 6 10, w_member_id = 1,
          w_responsibility_id = Some 1\<rparr>],
      weekly_seq := 2\<rparr>"

section \<open>The schedule view, as the pages read it\<close>

text \<open>
  \<^verbatim>\<open>get_schedules_for_date_range\<close> returns \<^verbatim>\<open>dict(row)\<close> for every row of the result:
  a dictionary with one key for every column of the query, a NULL as the value None.
\<close>

datatype py_value = PyNone | PyInt int | PyStr string

definition py_optional :: "string option \<Rightarrow> py_value" where
  "py_optional x = (case x of None \<Rightarrow> PyNone | Some s \<Rightarrow> PyStr s)"

definition row_dict :: "schedule_view \<Rightarrow> (string \<times> py_value) list" where
  "row_dict v =
     [(''id'', PyInt (v_id v)), (''date'', PyStr (text_of (v_date v))),
      (''shift_id'', PyInt (v_shift_id v)), (''member_id'', PyInt (v_member_id v)),
      (''member_name'', PyStr (v_member_name v)), (''role_name'', py_optional (v_role_name v)),
      (''shift_name'', PyStr (v_shift_name v)), (''start_time'', PyStr (v_start_time v)),
      (''end_time'', PyStr (v_end_time v)),
      (''responsibility_name'', py_optional (v_responsibility_name v)),
      (''responsibility_color'', py_optional (v_responsibility_color v))]"

text \<open>\<^verbatim>\<open>d.get(key, default)\<close>: the value of the key, and the default only when the
  dictionary has no such key.\<close>

definition dict_get :: "(string \<times> py_value) list \<Rightarrow> string \<Rightarrow> py_value \<Rightarrow> py_value" where
  "dict_get d k fallback = (case map_of d k of None \<Rightarrow> fallback | Some x \<Rightarrow> x)"

text \<open>
  The responsibility name and colour the pages show for a schedule: the schedule
  page of app.py (\<^verbatim>\<open>show_schedule_page\<close>) reads \<^verbatim>\<open>schedule.get('responsibility_name', 'Unassigned')\<close>
  and \<^verbatim>\<open>schedule.get('responsibility_color', '#cccccc')\<close>, and \<^verbatim>\<open>create_daily_gantt\<close>
  of gantt_view.py reads the same name and the colour with the default
  \<^verbatim>\<open>'#808080'\<close>.
\<close>

definition shown_responsibility_name :: "schedule_view \<Rightarrow> py_value" where
  "shown_responsibility_name schedule =
     dict_get (row_dict schedule) ''responsibility_name'' (PyStr ''Unassigned'')"

definition shown_responsibility_color :: "schedule_view \<Rightarrow> py_value" where
  "shown_responsibility_color schedule =
     dict_get (row_dict schedule) ''responsibility_color'' (PyStr ''#cccccc'')"

definition gantt_color :: "schedule_view \<Rightarrow> py_value" where
  "gantt_color schedule =
     dict_get (row_dict schedule) ''responsibility_color'' (PyStr ''#808080'')"

section \<open>Bulk population, read as a list of insert attempts\<close>

text \<open>A member is absent on a day of a range when one of the absences the query selects
  for the range is an absence of the member and covers the day, both ends included.\<close>

definition absent_on :: "store \<Rightarrow> date_text \<Rightarrow> date_text \<Rightarrow> int \<Rightarrow> date \<Rightarrow> bool" where
  "absent_on db start_date end_date member_id d \<longleftrightarrow>
     list_ex (\<lambda>(k, s, e). k = member_id \<and> day_of s \<le> d \<and> d \<le> day_of e)
       (overlapping_absences db start_date end_date)"

text \<open>The (date, shift, member) triples the loop over the members tries to insert on one
  date, in order.\<close>

definition attempts_on :: "(int \<times> int) list \<Rightarrow> absence_map \<Rightarrow> date \<Rightarrow> (date_text \<times> int \<times> int) list"
  where
  "attempts_on members absence_map d =
     map (\<lambda>(member_id, shift_id). (strftime d, shift_id, member_id))
       (filter (\<lambda>(member_id, shift_id). \<not> is_absent absence_map member_id d) members)"

text \<open>A list of insert attempts, run in order: an attempt that fails changes nothing.\<close>

fun insert_all :: "store \<times> nat \<Rightarrow> (date_text \<times> int \<times> int) list \<Rightarrow> store \<times> nat" where
  "insert_all st [] = st"
| "insert_all (db, created) ((d, shift_id, member_id) # rest) =
     (case insert_schedule get_connection db d shift_id member_id of
        Inr (rowid, db') \<Rightarrow> insert_all (db', created + 1) rest
      | Inl e \<Rightarrow> insert_all (db, created) rest)"

text \<open>The attempts of a whole range: date by date, Monday to Friday only.\<close>

definition attempts_between ::
  "(int \<times> int) list \<Rightarrow> absence_map \<Rightarrow> date \<Rightarrow> date \<Rightarrow> (date_text \<times> int \<times> int) list" where
  "attempts_between members absence_map start_dt end_dt =
     concat (map (attempts_on members absence_map) (filter (\<lambda>d. weekday d < 5) [start_dt..end_dt]))"

section \<open>Conflict lines and more example data\<close>

text \<open>The line of a conflict: member name, " on ", and the date as stored.\<close>

definition conflict_line :: "schedule_view \<Rightarrow> string" where
  "conflict_line schedule = v_member_name schedule @ '' on '' @ text_of (v_date schedule)"

text \<open>A view of Alice on the shift Early, an absence of Alice, and the store after the
  week of Monday 2024-06-03 is populated for her.\<close>

definition alice_shift_on :: "int \<Rightarrow> date_text \<Rightarrow> schedule_view" where
  "alice_shift_on i d =
     \<lparr>v_id = i, v_date = d, v_shift_id = 1, v_member_id = 1, v_member_name = ''Alice'',
      v_role_name = None, v_shift_name = ''Early'', v_start_time = ''07:00'',
      v_end_time = ''15:00'', v_responsibility_name = None, v_responsibility_color = None\<rparr>"

definition alice_absence :: "date_text \<Rightarrow> date_text \<Rightarrow> absence_view" where
  "alice_absence start_date end_date =
     \<lparr>a_id = 1, a_member_id = 1, a_start_date = start_date, a_end_date = end_date,
      a_reason = ''Holiday'', a_member_name = ''Alice''\<rparr>"

definition ops_week_store :: store where
  "ops_week_store = ops_store
     \<lparr>schedules :=
        [\<lparr>s_id = 1, s_date = iso 2024 6 3, s_shift_id = 1, s_member_id = 1\<rparr>,
         \<lparr>s_id = 2, s_date = iso 2024 6 4, s_shift_id = 1, s_member_id = 1\<rparr>,
         \<lparr>s_id = 3, s_date = iso 2024 6 5, s_shift_id = 1, s_member_id = 1\<rparr>,
         \<lparr>s_id = 4, s_date = iso 2024 6 6, s_shift_id = 1, s_member_id = 1\<rparr>,
         \<lparr>s_id = 5, s_date = iso 2024 6 7, s_shift_id = 1, s_member_id = 1\<rparr>],
      schedules_seq := 5\<rparr>"

section \<open>Properties\<close>

lemmas calendar_defs =
  ymd2ord_def days_before_year_def days_before_month_def DAYS_BEFORE_MONTH_def is_leap_def

lemma ymd2ord_date_max: "ymd2ord 9999 12 31 = MAXORDINAL"
  by (simp add: calendar_defs MAXORDINAL_def)

lemma rota_dates:
  "ymd2ord 2024 6 3 = 739040" "ymd2ord 2024 6 4 = 739041" "ymd2ord 2024 6 10 = 739047"
  "ymd2ord 2024 6 11 = 739048" "ymd2ord 2024 6 14 = 739051"
  by (simp_all add: calendar_defs)

lemma more_dates:
  "ymd2ord 2024 6 5 = 739042" "ymd2ord 2024 6 6 = 739043" "ymd2ord 2024 6 7 = 739044"
  "ymd2ord 2024 6 8 = 739045" "ymd2ord 9999 12 27 = 3652055" "ymd2ord 9999 12 31 = 3652059"
  "ymd2ord 1000 1 1 = 364878" "ymd2ord 999 12 30 = 364876" "ymd2ord 999 12 31 = 364877"
  by (simp_all add: calendar_defs)

subsection \<open>The characters of some texts\<close>

lemma zero_padded_2:
  "zero_padded 2 n = [''0123456789'' ! nat (n div 10 mod 10), ''0123456789'' ! nat (n mod 10)]"
  by (simp add: eval_nat_numeral)

lemma zero_padded_3:
  "zero_padded 3 n =
     [''0123456789'' ! nat (n div 10 div 10 mod 10),
      ''0123456789'' ! nat (n div 10 mod 10), ''0123456789'' ! nat (n mod 10)]"
  by (simp add: eval_nat_numeral)

lemma zero_padded_4:
  "zero_padded 4 n =
     [''0123456789'' ! nat (n div 10 div 10 div 10 mod 10),
      ''0123456789'' ! nat (n div 10 div 10 mod 10),
      ''0123456789'' ! nat (n div 10 mod 10), ''0123456789'' ! nat (n mod 10)]"
  by (simp add: eval_nat_numeral)

lemma ord2ymd_examples:
  "ord2ymd 739040 = (2024, 6, 3)" "ord2ymd 739041 = (2024, 6, 4)" "ord2ymd 739047 = (2024, 6, 10)"
  "ord2ymd 739048 = (2024, 6, 11)" "ord2ymd 739051 = (2024, 6, 14)" "ord2ymd 739045 = (2024, 6, 8)"
  "ord2ymd 364876 = (999, 12, 30)" "ord2ymd 364877 = (999, 12, 31)"
  "ord2ymd 739043 = (2024, 6, 6)" "ord2ymd 3652059 = (9999, 12, 31)"
  by (simp_all add: ord2ymd_def Let_def DAYS_BEFORE_MONTH_def DAYS_IN_MONTH_def)

lemma example_texts:
  "text_of (Padded 739040) = ''2024-06-03''" "text_of (Padded 739041) = ''2024-06-04''"
  "text_of (Padded 739047) = ''2024-06-10''" "text_of (Padded 739048) = ''2024-06-11''"
  "text_of (Padded 739051) = ''2024-06-14''" "text_of (Padded 739045) = ''2024-06-08''"
  "text_of (Padded 364876) = ''0999-12-30''" "text_of (Padded 364877) = ''0999-12-31''"
  "text_of (Unpadded 364877) = ''999-12-31''"
  "text_of (Padded 739043) = ''2024-06-06''" "text_of (Padded 3652059) = ''9999-12-31''"
  by (simp_all add: text_of_def iso_string_def unpadded_def ord2ymd_examples zero_padded_2
      zero_padded_3 zero_padded_4 eval_nat_numeral)

subsection \<open>The Monday of a week\<close>

lemma week_bounds:
  fixes d :: int
  assumes "1 \<le> d" "d \<le> 3652059"
  shows "1 \<le> d - (d + 6) mod 7" and "d - (d + 6) mod 7 + 4 \<le> 3652059"
proof -
  define q where "q = (d + 6) div 7"
  define w where "w = (d + 6) mod 7"
  have e: "d + 6 = 7 * q + w" by (simp add: q_def w_def)
  have w: "0 \<le> w" "w < 7" by (simp_all add: w_def)
  have "(d + 6) div 7 \<le> 3652065 div 7"
    by (rule zdiv_mono1) (use assms in simp_all)
  then have q: "q \<le> 521723" by (simp add: q_def)
  have "7 div 7 \<le> (d + 6) div 7"
    by (rule zdiv_mono1) (use assms in simp_all)
  then have q1: "1 \<le> q" by (simp add: q_def)
  show "1 \<le> d - (d + 6) mod 7"
    using e w q1 unfolding w_def[symmetric] by linarith
  show "d - (d + 6) mod 7 + 4 \<le> 3652059"
    using e w q unfolding w_def[symmetric] by linarith
qed

lemma julian_weekday: "((t::int) + 1721426) mod 7 = t mod 7"
proof -
  have "t + 1721426 = t + 7 * 245918" by simp
  then show ?thesis by (metis mod_mult_self2)
qed

lemma next_sunday_minus_six:
  "(t::int) + (0 - (if t mod 7 > 0 then t mod 7 - 7 else t mod 7)) + - 6 = t - (t + 6) mod 7"
  by presburger

lemma monday_is_monday: "((d::int) - (d + 6) mod 7 + 6) mod 7 = 0"
  by presburger

lemma monday_of_week:
  assumes "py_date d"
  shows "date_add_days d (- weekday d) = Inr (d - weekday d)"
    and "py_date (d - weekday d)" and "d - weekday d + 4 \<le> MAXORDINAL"
proof -
  have "1 \<le> d" "d \<le> 3652059"
    using assms by (simp_all add: py_date_def MAXORDINAL_def)
  note b = week_bounds[OF this]
  show "date_add_days d (- weekday d) = Inr (d - weekday d)"
    using b by (simp add: date_add_days_def weekday_def MAXORDINAL_def Let_def)
  show "py_date (d - weekday d)"
    using b by (simp add: py_date_def weekday_def MAXORDINAL_def)
  show "d - weekday d + 4 \<le> MAXORDINAL"
    using b by (simp add: weekday_def MAXORDINAL_def)
qed

lemma get_week_dates_eq:
  assumes "py_date d"
  shows "get_week_dates d =
    Inr (map (\<lambda>i. d - weekday d + i) [0, 1, 2, 3, 4])"
proof -
  let ?m = "d - weekday d"
  have m: "1 \<le> ?m" "?m + 4 \<le> MAXORDINAL"
    using monday_of_week[OF assms] by (simp_all add: py_date_def)
  have "add_each ?m [0, 1, 2, 3, 4] = Inr (map (\<lambda>i. ?m + i) [0, 1, 2, 3, 4])"
    using m by (simp add: date_add_days_def Let_def)
  then show ?thesis
    by (simp add: get_week_dates_def Let_def monday_of_week(1)[OF assms])
qed

lemma sql_week_start_eq:
  assumes "py_date d"
  shows "sql_week_start (Padded d) = Some (Padded (d - weekday d))"
proof -
  have "- 365 \<le> d" "d \<le> 3652059"
    using assms by (simp_all add: py_date_def MAXORDINAL_def)
  then show ?thesis
    using next_sunday_minus_six[of d]
    by (simp add: sql_week_start_def sqlite_days_modifier_def
        sqlite_weekday_modifier_def sqlite_min_ordinal_def MAXORDINAL_def weekday_def Let_def
        julian_weekday)
qed

lemma strftime_padded: "ymd2ord 1000 1 1 \<le> d \<Longrightarrow> strftime d = Padded d"
  by (simp add: strftime_def)

text \<open>
  C4. For every calendar date \<open>d\<close>, \<^verbatim>\<open>get_week_dates(d)\<close> returns five dates and the
  first of them is the day that \<^verbatim>\<open>date(d, 'weekday 0', '-6 days')\<close> computes in the
  responsibility join from the text of \<open>d\<close>: the Monday on or before \<open>d\<close>, which is \<open>d\<close>
  itself on a Monday and five or six days back on a Saturday or Sunday. When that Monday
  is 1000-01-01 or later, the same holds of the texts \<^verbatim>\<open>strftime("%Y-%m-%d")\<close> writes for
  the two days, which are the keys app.py passes to the store. (Before the year 1000
  \<^verbatim>\<open>strftime\<close> does not pad the year and SQLite answers NULL on its text: lemma
  \<open>week_start_of_0999_12_31\<close>.)
\<close>

theorem week_dates_head_is_sql_week_start:
  assumes "py_date d"
  shows "\<exists>ws. get_week_dates d = Inr ws \<and> length ws = 5
    \<and> sql_week_start (Padded d) = Some (Padded (ws ! 0))
    \<and> (ymd2ord 1000 1 1 \<le> ws ! 0 \<longrightarrow>
         sql_week_start (strftime d) = Some (strftime (ws ! 0)))
    \<and> ws ! 0 = d - weekday d
    \<and> weekday (ws ! 0) = 0 \<and> ws ! 0 \<le> d \<and> d < ws ! 0 + 7"
proof -
  have w: "0 \<le> (d + 6) mod 7" "(d + 6) mod 7 < 7"
    by simp_all
  have s: "sql_week_start (strftime d) = Some (strftime (d - weekday d))"
    if "ymd2ord 1000 1 1 \<le> d - weekday d"
  proof -
    from that w have "ymd2ord 1000 1 1 \<le> d"
      by (simp add: weekday_def)
    then show ?thesis
      by (simp only: strftime_padded that sql_week_start_eq[OF assms])
  qed
  show ?thesis
    using w s monday_is_monday[of d]
    by (simp add: get_week_dates_eq[OF assms] sql_week_start_eq[OF assms] weekday_def)
qed

theorem week_dates_head_is_sql_week_start_witness:
  "py_date (ymd2ord 2024 6 8) \<and> weekday (ymd2ord 2024 6 8) = 5
   \<and> ymd2ord 1000 1 1 \<le> ymd2ord 2024 6 3
   \<and> get_week_dates (ymd2ord 2024 6 8) = Inr (map (\<lambda>i. ymd2ord 2024 6 3 + i) [0, 1, 2, 3, 4])
   \<and> sql_week_start (iso 2024 6 8) = Some (iso 2024 6 3)
   \<and> strftime (ymd2ord 2024 6 8) = iso 2024 6 8 \<and> strftime (ymd2ord 2024 6 3) = iso 2024 6 3
   \<and> sql_week_start (strftime (ymd2ord 2024 6 8)) = Some (strftime (ymd2ord 2024 6 3))
   \<and> text_of (iso 2024 6 8) = ''2024-06-08'' \<and> text_of (iso 2024 6 3) = ''2024-06-03''"
proof -
  have v: "ymd2ord 2024 6 8 = 739045" "ymd2ord 2024 6 3 = 739040" "ymd2ord 1000 1 1 = 364878"
    by (simp_all add: calendar_defs)
  have p: "py_date (ymd2ord 2024 6 8)"
    by (simp add: v py_date_def MAXORDINAL_def)
  from week_dates_head_is_sql_week_start[OF p] obtain ws where
    ws: "get_week_dates (ymd2ord 2024 6 8) = Inr ws"
      "sql_week_start (Padded (ymd2ord 2024 6 8)) = Some (Padded (ws ! 0))"
      "ymd2ord 1000 1 1 \<le> ws ! 0 \<longrightarrow>
         sql_week_start (strftime (ymd2ord 2024 6 8)) = Some (strftime (ws ! 0))"
    by blast
  have g: "get_week_dates (ymd2ord 2024 6 8) = Inr (map (\<lambda>i. ymd2ord 2024 6 3 + i) [0, 1, 2, 3, 4])"
    by (simp add: v get_week_dates_def weekday_def date_add_days_def MAXORDINAL_def Let_def)
  with ws(1) have h: "ws ! 0 = ymd2ord 2024 6 3" by auto
  have t: "text_of (iso 2024 6 8) = ''2024-06-08''" "text_of (iso 2024 6 3) = ''2024-06-03''"
    by (simp_all add: iso_def v example_texts)
  have f: "strftime (ymd2ord 2024 6 8) = iso 2024 6 8" "strftime (ymd2ord 2024 6 3) = iso 2024 6 3"
    by (simp_all add: strftime_def iso_def v)
  have m: "ymd2ord 1000 1 1 \<le> ymd2ord 2024 6 3"
    by (simp add: v)
  from ws(2) have a: "sql_week_start (iso 2024 6 8) = Some (iso 2024 6 3)"
    by (simp only: h iso_def)
  from ws(3) m have b: "sql_week_start (strftime (ymd2ord 2024 6 8))
      = Some (strftime (ymd2ord 2024 6 3))"
    by (simp only: h)
  have k: "weekday (ymd2ord 2024 6 8) = 5"
    by (simp add: v weekday_def)
  show ?thesis
    by (intro conjI p k m g a f b t)
qed

text \<open>Tuesday 0999-12-31: \<^verbatim>\<open>strftime\<close> writes \<^verbatim>\<open>999-12-31\<close>, on which SQLite's
  \<^verbatim>\<open>date()\<close> answers NULL and \<^verbatim>\<open>strptime\<close> raises ValueError; on the padded text
  \<^verbatim>\<open>0999-12-31\<close> SQLite answers the Monday \<^verbatim>\<open>0999-12-30\<close> that
  \<^verbatim>\<open>get_week_dates\<close> starts with.\<close>

lemma week_start_of_0999_12_31:
  "py_date (ymd2ord 999 12 31) \<and> weekday (ymd2ord 999 12 31) = 1
   \<and> get_week_dates (ymd2ord 999 12 31) = Inr (map (\<lambda>i. ymd2ord 999 12 30 + i) [0, 1, 2, 3, 4])
   \<and> text_of (strftime (ymd2ord 999 12 31)) = ''999-12-31''
   \<and> sql_week_start (strftime (ymd2ord 999 12 31)) = None
   \<and> strptime (strftime (ymd2ord 999 12 31)) = Inl (ValueError ''time data does not match format'')
   \<and> text_of (iso 999 12 31) = ''0999-12-31''
   \<and> sql_week_start (iso 999 12 31) = Some (iso 999 12 30)
   \<and> text_of (iso 999 12 30) = ''0999-12-30''"
  by (simp add: more_dates iso_def py_date_def MAXORDINAL_def weekday_def get_week_dates_def
      date_add_days_def Let_def strftime_def strptime_def sql_week_start_def example_texts
      sqlite_min_ordinal_def sqlite_days_modifier_def sqlite_weekday_modifier_def)

subsection \<open>Deleting a key that is not there\<close>

lemma filter_other_keys:
  "i \<notin> set (map key rows) \<Longrightarrow> filter (\<lambda>r. key r \<noteq> i) rows = rows"
  by (induction rows) auto

lemma filter_absent_key:
  "k \<notin> set (map key rows) \<Longrightarrow> filter (\<lambda>r. key r = k) rows = []"
  by (induction rows) auto

lemma sql_delete_missing:
  "sqlite_integer i \<Longrightarrow> i \<notin> set (map key rows) \<Longrightarrow>
   sql_delete conn key referenced i rows = Inr rows"
  by (auto simp: sql_delete_def filter_other_keys list_ex_iff)

text \<open>
  C10. Each delete operation of the store, called with a key that its table does not
  hold, raises nothing and commits the store it found: no row of any table changes. The
  key is a SQLite integer, an int of the signed 64-bit range. (On any other int the
  statement is not run: binding the key raises OverflowError, lemma
  \<open>delete_unbindable_key_raises\<close>.)
\<close>

theorem delete_missing_id_is_noop:
  "(sqlite_integer team_id \<and> team_id \<notin> set (map t_id (teams db)) \<longrightarrow>
      delete_team db team_id = Inr db)
   \<and> (sqlite_integer role_id \<and> role_id \<notin> set (map r_id (roles db)) \<longrightarrow>
        delete_role db role_id = Inr db)
   \<and> (sqlite_integer member_id \<and> member_id \<notin> set (map m_id (team_members db)) \<longrightarrow>
        delete_team_member db member_id = Inr db)
   \<and> (sqlite_integer resp_id \<and> resp_id \<notin> set (map p_id (responsibilities db)) \<longrightarrow>
        delete_responsibility db resp_id = Inr db)
   \<and> (sqlite_integer schedule_id \<and> schedule_id \<notin> set (map s_id (schedules db)) \<longrightarrow>
        delete_schedule db schedule_id = Inr db)
   \<and> (sqlite_integer absence_id \<and> absence_id \<notin> set (map a_id (absences db)) \<longrightarrow>
        delete_absence db absence_id = Inr db)"
  by (simp add: delete_team_def delete_role_def delete_team_member_def
      delete_responsibility_def delete_schedule_def delete_absence_def sql_delete_missing)

theorem delete_missing_id_is_noop_witness:
  "sqlite_integer 7
   \<and> 7 \<notin> set (map t_id (teams ops_store_with_role))
   \<and> delete_team ops_store_with_role 7 = Inr ops_store_with_role
   \<and> 7 \<notin> set (map r_id (roles ops_store_with_role))
   \<and> delete_role ops_store_with_role 7 = Inr ops_store_with_role
   \<and> 7 \<notin> set (map m_id (team_members ops_store_with_role))
   \<and> delete_team_member ops_store_with_role 7 = Inr ops_store_with_role
   \<and> 7 \<notin> set (map p_id (responsibilities ops_store_with_role))
   \<and> delete_responsibility ops_store_with_role 7 = Inr ops_store_with_role
   \<and> 7 \<notin> set (map s_id (schedules ops_store_with_role))
   \<and> delete_schedule ops_store_with_role 7 = Inr ops_store_with_role
   \<and> 7 \<notin> set (map a_id (absences ops_store_with_role))
   \<and> delete_absence ops_store_with_role 7 = Inr ops_store_with_role"
proof -
  have "sqlite_integer 7"
    by (simp add: sqlite_integer_def)
  moreover have "7 \<notin> set (map t_id (teams ops_store_with_role))"
    "7 \<notin> set (map r_id (roles ops_store_with_role))"
    "7 \<notin> set (map m_id (team_members ops_store_with_role))"
    "7 \<notin> set (map p_id (responsibilities ops_store_with_role))"
    "7 \<notin> set (map s_id (schedules ops_store_with_role))"
    "7 \<notin> set (map a_id (absences ops_store_with_role))"
    by (simp_all add: ops_store_with_role_def ops_store_def initial_store_def ops_team_def
        ops_role_def alice_def)
  ultimately show ?thesis
    using delete_missing_id_is_noop[of 7 ops_store_with_role 7 7 7 7 7] by simp
qed

text \<open>The first int above the 64-bit range is the key of no row, and every delete
  operation raises OverflowError on it.\<close>

lemma delete_unbindable_key_raises:
  "\<not> sqlite_integer (2 ^ 63)
   \<and> delete_team db (2 ^ 63) = Inl OverflowError
   \<and> delete_role db (2 ^ 63) = Inl OverflowError
   \<and> delete_team_member db (2 ^ 63) = Inl OverflowError
   \<and> delete_responsibility db (2 ^ 63) = Inl OverflowError
   \<and> delete_schedule db (2 ^ 63) = Inl OverflowError
   \<and> delete_absence db (2 ^ 63) = Inl OverflowError
   \<and> \<not> sqlite_integer (- (2 ^ 63) - 1)
   \<and> delete_team db (- (2 ^ 63) - 1) = Inl OverflowError"
  by (simp add: sqlite_integer_def sql_delete_def delete_team_def delete_role_def
      delete_team_member_def delete_responsibility_def delete_schedule_def delete_absence_def)

subsection \<open>Adding one schedule\<close>

lemma insert_schedule_fresh:
  assumes "(d, sh, m) \<notin> set (map schedule_key (schedules db))"
  shows "insert_schedule get_connection db d sh m =
    Inr (schedules_seq db + 1,
         db\<lparr>schedules := schedules db @
               [\<lparr>s_id = schedules_seq db + 1, s_date = d, s_shift_id = sh, s_member_id = m\<rparr>],
             schedules_seq := schedules_seq db + 1\<rparr>)"
  using assms by (simp add: insert_schedule_def get_connection_def Let_def)

lemma insert_schedule_present:
  assumes "(d, sh, m) \<in> set (map schedule_key (schedules db))"
  shows "insert_schedule conn db d sh m = Inl IntegrityError"
  using assms by (simp add: insert_schedule_def)

text \<open>
  C5. For a (date, shift, member) triple that no schedule row holds, \<^verbatim>\<open>add_schedule\<close>
  returns the new key and appends exactly the row of that triple; called again with the
  same triple on the store it left, it raises the ValueError "This member is already
  scheduled for this shift on this date" (not the IntegrityError of SQLite), commits
  nothing, and the store holds one row of the triple.
\<close>

theorem add_schedule_once:
  assumes "(d, sh, m) \<notin> set (map schedule_key (schedules db))"
  shows "\<exists>schedule_id db'.
      add_schedule db d sh m = Inr (schedule_id, db')
    \<and> schedules db' = schedules db @
         [\<lparr>s_id = schedule_id, s_date = d, s_shift_id = sh, s_member_id = m\<rparr>]
    \<and> add_schedule db' d sh m = Inl (ValueError already_scheduled)
    \<and> length (filter (\<lambda>s. schedule_key s = (d, sh, m)) (schedules db')) = 1"
proof -
  let ?id = "schedules_seq db + 1"
  let ?row = "\<lparr>s_id = ?id, s_date = d, s_shift_id = sh, s_member_id = m\<rparr>"
  let ?db = "db\<lparr>schedules := schedules db @ [?row], schedules_seq := ?id\<rparr>"
  have 1: "add_schedule db d sh m = Inr (?id, ?db)"
    by (simp add: add_schedule_def insert_schedule_fresh[OF assms])
  have "(d, sh, m) \<in> set (map schedule_key (schedules ?db))"
    by (simp add: schedule_key_def)
  then have 2: "add_schedule ?db d sh m = Inl (ValueError already_scheduled)"
    by (simp add: add_schedule_def insert_schedule_present del: set_map)
  have "filter (\<lambda>s. schedule_key s = (d, sh, m)) (schedules db) = []"
    using assms by (rule filter_absent_key)
  then have 3: "length (filter (\<lambda>s. schedule_key s = (d, sh, m)) (schedules ?db)) = 1"
    by (simp add: schedule_key_def)
  show ?thesis using 1 2 3 by simp
qed

theorem add_schedule_once_witness:
  "(iso 2024 6 3, 1, 1) \<notin> set (map schedule_key (schedules ops_store))
   \<and> (\<exists>schedule_id db'.
        add_schedule ops_store (iso 2024 6 3) 1 1 = Inr (schedule_id, db')
      \<and> schedules db' =
          [\<lparr>s_id = schedule_id, s_date = iso 2024 6 3, s_shift_id = 1, s_member_id = 1\<rparr>]
      \<and> add_schedule db' (iso 2024 6 3) 1 1 = Inl (ValueError already_scheduled)
      \<and> length (filter (\<lambda>s. schedule_key s = (iso 2024 6 3, 1, 1)) (schedules db')) = 1)"
proof -
  have e: "schedules ops_store = []"
    by (simp add: ops_store_def initial_store_def)
  then have h: "(iso 2024 6 3, 1, 1) \<notin> set (map schedule_key (schedules ops_store))"
    by simp
  show ?thesis
    using h add_schedule_once[OF h] by (simp add: e)
qed

subsection \<open>Deleting a team\<close>

lemma delete_team_always:
  "sqlite_integer i \<Longrightarrow>
   delete_team db i = Inr (db\<lparr>teams := filter (\<lambda>t. t_id t \<noteq> i) (teams db)\<rparr>)"
  by (simp add: delete_team_def sql_delete_def get_connection_def)

lemma delete_team_gone:
  "delete_team db i = Inr db' \<Longrightarrow> i \<notin> set (map t_id (get_all_teams db'))"
  by (auto simp: delete_team_def sql_delete_def get_connection_def get_all_teams_def
      split: if_splits)

lemma delete_team_foreign_keys_on:
  "sql_delete \<lparr>foreign_keys = True\<rparr> t_id (team_referenced ops_store_with_role 1) 1
     (teams ops_store_with_role) = Inl IntegrityError"
  by (simp add: sql_delete_def sqlite_integer_def team_referenced_def ops_store_with_role_def
      ops_store_def initial_store_def ops_team_def ops_role_def)

text \<open>
  C7. The team Ops (key 1) is referenced by a role. \<^verbatim>\<open>delete_team(1)\<close> raises nothing:
  it removes the team, the role stays with its reference to the missing team, and
  \<^verbatim>\<open>get_all_teams\<close> no longer lists the team. The specification asks for a
  ReferentialIntegrityError and the team left in place, which is what SQLite does on a
  connection with foreign keys on (lemma \<open>delete_team_foreign_keys_on\<close>); the schema
  declares the foreign key and the caller in app.py reports "Cannot delete" on an
  exception that never comes.
\<close>

theorem delete_team_with_role_succeeds:
  "delete_team ops_store_with_role 1 = Inr (ops_store_with_role\<lparr>teams := []\<rparr>)
   \<and> teams ops_store_with_role = [ops_team] \<and> t_id ops_team = 1
   \<and> roles ops_store_with_role = [ops_role] \<and> r_team_id ops_role = Some 1
   \<and> get_all_teams (ops_store_with_role\<lparr>teams := []\<rparr>) = []"
  by (simp add: delete_team_always sqlite_integer_def get_all_teams_def ops_store_with_role_def
      ops_store_def initial_store_def ops_team_def ops_role_def)

subsection \<open>Weekly responsibilities\<close>

lemma upsert_weekly_eq:
  "set_weekly_responsibility db w m r = upsert_weekly \<lparr>foreign_keys = False\<rparr> db w m r"
  by (simp add: set_weekly_responsibility_def get_connection_def)

lemma map_key_update:
  "map (weekly_key \<circ> (\<lambda>x. if weekly_key x = k then x\<lparr>w_responsibility_id := r\<rparr> else x)) rows
   = map weekly_key rows"
  by (induction rows) (auto simp: weekly_key_def)

lemma stored_after_update:
  "map w_responsibility_id (filter (\<lambda>x. weekly_key x = k')
      (map (\<lambda>x. if weekly_key x = k then x\<lparr>w_responsibility_id := r\<rparr> else x) rows))
   = (if k' = k then map (\<lambda>x. r) (filter (\<lambda>x. weekly_key x = k) rows)
      else map w_responsibility_id (filter (\<lambda>x. weekly_key x = k') rows))"
  by (induction rows) (auto simp: weekly_key_def)

lemma distinct_key_filter:
  "distinct (map key rows) \<Longrightarrow> k \<in> set (map key rows) \<Longrightarrow>
   length (filter (\<lambda>x. key x = k) rows) = 1"
proof (induction rows)
  case Nil
  then show ?case by simp
next
  case (Cons a rows)
  show ?case
  proof (cases "key a = k")
    case True
    then have "k \<notin> set (map key rows)" using Cons.prems by auto
    then have "filter (\<lambda>x. key x = k) rows = []"
      by (induction rows) auto
    then show ?thesis using True by simp
  next
    case False
    then show ?thesis using Cons by auto
  qed
qed

lemma set_weekly_responsibility_step:
  assumes "distinct (map weekly_key (weekly_responsibilities db))"
  shows "\<exists>db'. set_weekly_responsibility db w m r = Inr db'
    \<and> distinct (map weekly_key (weekly_responsibilities db'))
    \<and> stored_responsibilities db' k =
        (if k = (w, m) then [r] else stored_responsibilities db k)"
proof (cases "(w, m) \<in> set (map weekly_key (weekly_responsibilities db))")
  case True
  from distinct_key_filter[OF assms True]
  have "map (\<lambda>x. r) (filter (\<lambda>x. weekly_key x = (w, m)) (weekly_responsibilities db)) = [r]"
    by (cases "filter (\<lambda>x. weekly_key x = (w, m)) (weekly_responsibilities db)") auto
  then show ?thesis
    using True assms
    by (simp add: upsert_weekly_eq upsert_weekly_def Let_def stored_responsibilities_def
        map_key_update stored_after_update del: set_map)
next
  case False
  then have "filter (\<lambda>x. weekly_key x = (w, m)) (weekly_responsibilities db) = []"
    by (rule filter_absent_key)
  then show ?thesis
    using False assms
    by (auto simp: upsert_weekly_eq upsert_weekly_def Let_def stored_responsibilities_def
        weekly_key_def)
qed

text \<open>
  C8. From a store whose weekly rows have distinct (week start, member) pairs, as the
  UNIQUE constraint keeps them, any list of \<^verbatim>\<open>set_weekly_responsibility\<close> calls runs
  without an error and leaves the pairs distinct; and for every pair, when the list has
  a call for it, the store holds one row of the pair and its responsibility is the one
  the last such call passed, None included; when it has none, the rows of the pair are
  as before.
\<close>

theorem weekly_responsibility_last_write_wins:
  assumes "distinct (map weekly_key (weekly_responsibilities db))"
  shows "\<exists>db'. set_weekly_responsibilities db calls = Inr db'
    \<and> distinct (map weekly_key (weekly_responsibilities db'))
    \<and> stored_responsibilities db' k =
        (case latest_call calls k of
           Some r \<Rightarrow> [r]
         | None \<Rightarrow> stored_responsibilities db k)"
  using assms
proof (induction calls arbitrary: db)
  case Nil
  then show ?case by simp
next
  case (Cons c calls)
  obtain w m r where c: "c = (w, m, r)" by (cases c)
  from set_weekly_responsibility_step[OF Cons.prems, of w m r k] obtain db1 where
    s: "set_weekly_responsibility db w m r = Inr db1"
      "distinct (map weekly_key (weekly_responsibilities db1))"
      "stored_responsibilities db1 k = (if k = (w, m) then [r] else stored_responsibilities db k)"
    by blast
  from Cons.IH[OF s(2)] obtain db' where
    t: "set_weekly_responsibilities db1 calls = Inr db'"
      "distinct (map weekly_key (weekly_responsibilities db'))"
      "stored_responsibilities db' k =
        (case latest_call calls k of Some r \<Rightarrow> [r] | None \<Rightarrow> stored_responsibilities db1 k)"
    by blast
  show ?case
    using s t by (auto simp: c split: option.splits)
qed


theorem weekly_responsibility_last_write_wins_witness:
  "distinct (map weekly_key (weekly_responsibilities ops_store))
   \<and> latest_call [(iso 2024 6 3, 1, Some 2), (iso 2024 6 10, 1, Some 3), (iso 2024 6 3, 1, None)] (iso 2024 6 3, 1)
       = Some None
   \<and> (\<exists>db'. set_weekly_responsibilities ops_store
          [(iso 2024 6 3, 1, Some 2), (iso 2024 6 10, 1, Some 3), (iso 2024 6 3, 1, None)] = Inr db'
        \<and> distinct (map weekly_key (weekly_responsibilities db'))
        \<and> stored_responsibilities db' (iso 2024 6 3, 1) = [None])"
proof -
  have h: "distinct (map weekly_key (weekly_responsibilities ops_store))"
    by (simp add: ops_store_def initial_store_def)
  have n: "iso 2024 6 10 \<noteq> iso 2024 6 3"
    by (simp add: iso_def rota_dates)
  show ?thesis
    using h n weekly_responsibility_last_write_wins[OF h,
        of "[(iso 2024 6 3, 1, Some 2), (iso 2024 6 10, 1, Some 3), (iso 2024 6 3, 1, None)]"
           "(iso 2024 6 3, 1)"]
    by simp
qed

subsection \<open>Schedules of a date range\<close>

lemma concat_guard_absent:
  "k \<notin> set (map key rows) \<Longrightarrow> concat (map (\<lambda>x. if k = key x then f x else []) rows) = []"
  by (induction rows) auto

lemma concat_guard_unique:
  "distinct (map key rows) \<Longrightarrow>
   concat (map (\<lambda>x. if k = key x then f x else []) rows)
   = (case find (\<lambda>x. key x = k) rows of None \<Rightarrow> [] | Some x \<Rightarrow> f x)"
  by (induction rows) (auto simp: concat_guard_absent)

lemma filter_guard_absent:
  "k \<notin> set (map key rows) \<Longrightarrow> filter (\<lambda>x. k = key x) rows = []"
  by (induction rows) auto

lemma filter_unique:
  "distinct (map key rows) \<Longrightarrow>
   filter (\<lambda>x. k = key x) rows = (case find (\<lambda>x. key x = k) rows of None \<Rightarrow> [] | Some x \<Rightarrow> [x])"
  by (induction rows) (auto simp: filter_guard_absent)

lemma left_join_unique:
  "distinct (map key rows) \<Longrightarrow> left_join (\<lambda>x. k = key x) rows = [find (\<lambda>x. key x = k) rows]"
  by (simp add: left_join_def filter_unique split: option.split)

lemma left_join_none: "left_join (\<lambda>x. False) rows = [None]"
  by (simp add: left_join_def)

lemma left_join_role:
  assumes "distinct (map r_id rows)"
  shows "left_join (\<lambda>r. role_id = Some (r_id r)) rows =
    [case role_id of None \<Rightarrow> None | Some i \<Rightarrow> find (\<lambda>r. r_id r = i) rows]"
  by (cases role_id) (simp_all add: left_join_none left_join_unique[OF assms])

lemma left_join_weekly:
  assumes "distinct (map weekly_key rows)"
  shows "left_join (\<lambda>wr. member_id = w_member_id wr \<and> Some (w_week_start_date wr) = week) rows =
    [case week of None \<Rightarrow> None
     | Some week_start \<Rightarrow> find (\<lambda>w. weekly_key w = (week_start, member_id)) rows]"
proof (cases week)
  case None
  then show ?thesis by (simp add: left_join_none)
next
  case (Some week_start)
  have "(\<lambda>wr. member_id = w_member_id wr \<and> Some (w_week_start_date wr) = week)
      = (\<lambda>wr. (week_start, member_id) = weekly_key wr)"
    by (auto simp: Some weekly_key_def)
  then show ?thesis
    by (simp add: Some left_join_unique[OF assms])
qed

lemma left_join_responsibility:
  assumes "distinct (map p_id rows)"
  shows "left_join (\<lambda>resp. case wr of None \<Rightarrow> False
            | Some w \<Rightarrow> w_responsibility_id w = Some (p_id resp)) rows =
    [case wr of None \<Rightarrow> None
     | Some w \<Rightarrow> (case w_responsibility_id w of None \<Rightarrow> None
                  | Some i \<Rightarrow> find (\<lambda>p. p_id p = i) rows)]"
proof (cases wr)
  case None
  then show ?thesis by (simp add: left_join_none)
next
  case (Some w)
  then show ?thesis
    by (cases "w_responsibility_id w") (simp_all add: left_join_none left_join_unique[OF assms])
qed

lemma concat_guard_option:
  "concat (map (\<lambda>x. if P x then (case f x of None \<Rightarrow> [] | Some v \<Rightarrow> [v]) else []) rows)
   = List.map_filter f (filter P rows)"
  by (induction rows) (auto simp: List.map_filter_simps split: option.splits)

lemma joined_schedules_eq:
  assumes "primary_keys db"
  shows "joined_schedules db start_date end_date =
    List.map_filter (view_of db)
      (filter (\<lambda>s. text_of start_date \<le> text_of (s_date s) \<and> text_of (s_date s) \<le> text_of end_date) (schedules db))"
proof -
  have k: "distinct (map m_id (team_members db))" "distinct (map sh_id (shifts db))"
      "distinct (map r_id (roles db))" "distinct (map p_id (responsibilities db))"
      "distinct (map weekly_key (weekly_responsibilities db))"
    using assms by (simp_all add: primary_keys_def)
  have "joined_schedules db start_date end_date =
    concat (map (\<lambda>s. if text_of start_date \<le> text_of (s_date s)
                         \<and> text_of (s_date s) \<le> text_of end_date
                      then (case view_of db s of None \<Rightarrow> [] | Some v \<Rightarrow> [v]) else [])
              (schedules db))"
    unfolding joined_schedules_def
    by (rule arg_cong[where f = concat], rule map_cong[OF refl])
      (auto simp: concat_guard_unique[OF k(1)] concat_guard_unique[OF k(2)]
        left_join_role[OF k(3)] left_join_weekly[OF k(5)] left_join_responsibility[OF k(4)]
        view_of_def resolved_responsibility_def
        split: option.splits dest: find_Some_iff[THEN iffD1])
  also have "\<dots> = List.map_filter (view_of db)
      (filter (\<lambda>s. text_of start_date \<le> text_of (s_date s) \<and> text_of (s_date s) \<le> text_of end_date) (schedules db))"
    by (rule concat_guard_option)
  finally show ?thesis .
qed


lemma find_key_None: "find (\<lambda>x. key x = k) rows = None \<longleftrightarrow> k \<notin> set (map key rows)"
  by (induction rows) auto

lemma find_key_Some: "find (\<lambda>x. key x = k) rows = Some x \<Longrightarrow> x \<in> set rows \<and> key x = k"
  by (induction rows) (auto split: if_splits)

lemma view_of_None:
  "view_of db s = None \<longleftrightarrow>
     \<not> (s_member_id s \<in> set (map m_id (team_members db))
        \<and> s_shift_id s \<in> set (map sh_id (shifts db)))"
proof -
  have "view_of db s = None \<longleftrightarrow>
      find (\<lambda>tm. m_id tm = s_member_id s) (team_members db) = None
      \<or> find (\<lambda>sh. sh_id sh = s_shift_id s) (shifts db) = None"
    by (simp add: view_of_def split: option.splits)
  then show ?thesis
    by (simp only: find_key_None) blast
qed

lemma view_of_fields:
  assumes "view_of db s = Some v"
  shows "v_id v = s_id s \<and> v_date v = s_date s \<and> v_shift_id v = s_shift_id s
    \<and> v_member_id v = s_member_id s
    \<and> (\<exists>tm \<in> set (team_members db). \<exists>sh \<in> set (shifts db).
         m_id tm = s_member_id s \<and> sh_id sh = s_shift_id s
         \<and> v_member_name v = m_name tm \<and> v_shift_name v = sh_name sh
         \<and> v_start_time v = sh_start_time sh \<and> v_end_time v = sh_end_time sh)
    \<and> v_responsibility_name v
        = map_option p_name (resolved_responsibility db (s_date s) (s_member_id s))
    \<and> v_responsibility_color v
        = map_option p_color (resolved_responsibility db (s_date s) (s_member_id s))"
proof -
  from assms obtain tm sh r where
    tm: "find (\<lambda>tm. m_id tm = s_member_id s) (team_members db) = Some tm"
    and sh: "find (\<lambda>sh. sh_id sh = s_shift_id s) (shifts db) = Some sh"
    and v: "v = make_view s tm r sh (resolved_responsibility db (s_date s) (s_member_id s))"
    by (auto simp: view_of_def split: option.splits)
  from find_key_Some[OF tm] find_key_Some[OF sh]
  have "tm \<in> set (team_members db)" "m_id tm = s_member_id s"
    "sh \<in> set (shifts db)" "sh_id sh = s_shift_id s"
    by simp_all
  moreover have "v_member_name v = m_name tm" "v_shift_name v = sh_name sh"
    "v_start_time v = sh_start_time sh" "v_end_time v = sh_end_time sh"
    "v_id v = s_id s" "v_date v = s_date s" "v_shift_id v = s_shift_id s"
    "v_member_id v = s_member_id s"
    "v_responsibility_name v
        = map_option p_name (resolved_responsibility db (s_date s) (s_member_id s))"
    "v_responsibility_color v
        = map_option p_color (resolved_responsibility db (s_date s) (s_member_id s))"
    by (simp_all add: v make_view_def)
  ultimately show ?thesis by blast
qed

lemma map_filter_shown:
  "List.map_filter (view_of db)
     (filter (\<lambda>s. text_of start_date \<le> text_of (s_date s) \<and> text_of (s_date s) \<le> text_of end_date) (schedules db))
   = map (\<lambda>s. the (view_of db s)) (shown_rows db start_date end_date)"
proof -
  have "List.map_filter (view_of db) (filter P rows)
      = map (\<lambda>s. the (view_of db s))
          (filter (\<lambda>s. P s \<and> s_member_id s \<in> set (map m_id (team_members db))
                     \<and> s_shift_id s \<in> set (map sh_id (shifts db))) rows)" for P rows
  proof (induction rows)
    case Nil
    then show ?case by (simp add: List.map_filter_simps)
  next
    case (Cons s rows)
    show ?case
    proof (cases "view_of db s")
      case None
      with Cons view_of_None[of db s] show ?thesis
        by (auto simp: List.map_filter_simps)
    next
      case (Some v)
      then have "view_of db s \<noteq> None" by simp
      then have "s_member_id s \<in> set (map m_id (team_members db))
          \<and> s_shift_id s \<in> set (map sh_id (shifts db))"
        unfolding view_of_None by simp
      with Cons Some show ?thesis
        by (auto simp: List.map_filter_simps)
    qed
  qed
  then show ?thesis by (simp add: shown_rows_def)
qed

lemma joined_schedules_shown:
  assumes "primary_keys db"
  shows "joined_schedules db start_date end_date
    = map (\<lambda>s. the (view_of db s)) (shown_rows db start_date end_date)"
  by (simp add: joined_schedules_eq[OF assms] map_filter_shown)

lemma shown_rows_view:
  "s \<in> set (shown_rows db start_date end_date) \<Longrightarrow> \<exists>v. view_of db s = Some v"
  using view_of_None[of db s] by (cases "view_of db s") (auto simp: shown_rows_def)



lemma views_are_shown_rows:
  assumes "primary_keys db"
  shows "set (get_schedules_for_date_range db start_date end_date)
    = (\<lambda>s. the (view_of db s)) ` set (shown_rows db start_date end_date)"
  by (simp add: get_schedules_for_date_range_def joined_schedules_shown[OF assms])

lemma view_has_shown_row:
  assumes "primary_keys db" and "v \<in> set (get_schedules_for_date_range db start_date end_date)"
  shows "\<exists>s \<in> set (shown_rows db start_date end_date). view_of db s = Some v"
  using assms(2) shown_rows_view[of _ db start_date end_date]
  by (auto simp: views_are_shown_rows[OF assms(1)])


lemmas example_defs =
  rota_store_def ops_store_def initial_store_def ops_team_def alice_def on_call_def

lemma iso_dates:
  "iso 2024 6 3 = Padded 739040" "iso 2024 6 4 = Padded 739041" "iso 2024 6 10 = Padded 739047"
  "iso 2024 6 11 = Padded 739048" "iso 2024 6 14 = Padded 739051"
  "iso 2024 6 5 = Padded 739042" "iso 2024 6 6 = Padded 739043" "iso 2024 6 7 = Padded 739044"
  "iso 9999 12 27 = Padded 3652055" "iso 9999 12 31 = Padded 3652059"
  by (simp_all add: iso_def rota_dates more_dates)

lemma rota_week_starts:
  "sql_week_start (Padded 739041) = Some (Padded 739040)"
  "sql_week_start (Padded 739048) = Some (Padded 739047)"
  by (simp_all add: sql_week_start_def sqlite_min_ordinal_def MAXORDINAL_def
      sqlite_days_modifier_def sqlite_weekday_modifier_def Let_def)

lemma rota_views:
  "get_schedules_for_date_range rota_store (iso 2024 6 3) (iso 2024 6 14) =
    [\<lparr>v_id = 1, v_date = iso 2024 6 4, v_shift_id = 1, v_member_id = 1,
      v_member_name = ''Alice'', v_role_name = None, v_shift_name = ''Early'',
      v_start_time = ''07:00'', v_end_time = ''15:00'',
      v_responsibility_name = Some ''On-call'', v_responsibility_color = Some ''#ff6b6b''\<rparr>,
     \<lparr>v_id = 2, v_date = iso 2024 6 11, v_shift_id = 1, v_member_id = 1,
      v_member_name = ''Alice'', v_role_name = None, v_shift_name = ''Early'',
      v_start_time = ''07:00'', v_end_time = ''15:00'',
      v_responsibility_name = None, v_responsibility_color = None\<rparr>]"
  by (simp add: get_schedules_for_date_range_def joined_schedules_def left_join_def
      make_view_def example_defs iso_dates example_texts rota_week_starts weekly_key_def
      less_eq_prod_def)


lemma find_update_other:
  "k' \<noteq> k \<Longrightarrow>
   find (\<lambda>w. weekly_key w = k')
     (map (\<lambda>x. if weekly_key x = k then x\<lparr>w_responsibility_id := r\<rparr> else x) rows)
   = find (\<lambda>w. weekly_key w = k') rows"
  by (induction rows) (auto simp: weekly_key_def)

lemma find_append_other:
  "\<not> P x \<Longrightarrow> find P (rows @ [x]) = find P rows"
  by (induction rows) auto

lemma set_weekly_responsibility_tables:
  assumes "set_weekly_responsibility db w m r = Inr db'"
  shows "team_members db' = team_members db" "shifts db' = shifts db" "roles db' = roles db"
    "responsibilities db' = responsibilities db" "schedules db' = schedules db"
    "teams db' = teams db" "absences db' = absences db"
  using assms
  by (auto simp: upsert_weekly_eq upsert_weekly_def Let_def split: if_splits)

lemma set_weekly_responsibility_find:
  assumes "set_weekly_responsibility db w m r = Inr db'" and "k \<noteq> (w, m)"
  shows "find (\<lambda>x. weekly_key x = k) (weekly_responsibilities db')
    = find (\<lambda>x. weekly_key x = k) (weekly_responsibilities db)"
  using assms
proof (cases "(w, m) \<in> set (map weekly_key (weekly_responsibilities db))")
  case True
  then show ?thesis
    using assms
    by (auto simp: upsert_weekly_eq upsert_weekly_def Let_def find_update_other
        simp del: set_map)
next
  case False
  have "weekly_key \<lparr>w_id = i, w_week_start_date = w, w_member_id = m,
      w_responsibility_id = r\<rparr> \<noteq> k" for i
    using assms(2) by (auto simp: weekly_key_def)
  then show ?thesis
    using assms False
    by (auto simp: upsert_weekly_eq upsert_weekly_def Let_def find_append_other
        simp del: set_map)
qed

lemma resolved_after_set:
  assumes "set_weekly_responsibility db w m r = Inr db'"
    and "sql_week_start d \<noteq> Some w \<or> member_id \<noteq> m"
  shows "resolved_responsibility db' d member_id = resolved_responsibility db d member_id"
proof (cases "sql_week_start d")
  case None
  then show ?thesis by (simp add: resolved_responsibility_def)
next
  case (Some week)
  with assms(2) have "(week, member_id) \<noteq> (w, m)" by auto
  from set_weekly_responsibility_find[OF assms(1) this] show ?thesis
    by (simp add: resolved_responsibility_def Some set_weekly_responsibility_tables[OF assms(1)]
        cong: option.case_cong)
qed

lemma view_of_after_set:
  assumes "set_weekly_responsibility db w m r = Inr db'"
    and "sql_week_start (s_date s) \<noteq> Some w \<or> s_member_id s \<noteq> m"
  shows "view_of db' s = view_of db s"
  by (simp add: view_of_def set_weekly_responsibility_tables[OF assms(1)]
      resolved_after_set[OF assms] cong: option.case_cong)

lemma primary_keys_after_set:
  assumes "set_weekly_responsibility db w m r = Inr db'" and "primary_keys db"
  shows "primary_keys db'"
proof -
  have "distinct (map weekly_key (weekly_responsibilities db))"
    using assms(2) by (simp add: primary_keys_def)
  from set_weekly_responsibility_step[OF this, of w m r "(w, m)"] assms(1)
  have "distinct (map weekly_key (weekly_responsibilities db'))" by auto
  then show ?thesis
    using assms(2) by (simp add: primary_keys_def set_weekly_responsibility_tables[OF assms(1)])
qed

lemma shown_rows_after_set:
  assumes "set_weekly_responsibility db w m r = Inr db'"
  shows "shown_rows db' a b = shown_rows db a b"
  by (simp add: shown_rows_def set_weekly_responsibility_tables[OF assms])

lemma views_after_set:
  assumes "set_weekly_responsibility db w m r = Inr db'" and "primary_keys db"
    and "sql_week_start d \<noteq> Some w"
  shows "filter (\<lambda>v. v_date v = d) (get_schedules_for_date_range db' a b)
    = filter (\<lambda>v. v_date v = d) (get_schedules_for_date_range db a b)"
proof -
  have d: "v_date (the (view_of db0 s)) = s_date s" if "s \<in> set (shown_rows db0 a b)" for db0 s
    using shown_rows_view[OF that] view_of_fields[of db0 s] by auto
  have "filter (\<lambda>v. v_date v = d) (map (\<lambda>s. the (view_of db' s)) (shown_rows db a b))
      = map (\<lambda>s. the (view_of db' s)) (filter (\<lambda>s. s_date s = d) (shown_rows db a b))"
    using d[of _ db'] unfolding shown_rows_after_set[OF assms(1)]
    by (simp add: filter_map comp_def cong: filter_cong)
  also have "\<dots> = map (\<lambda>s. the (view_of db s)) (filter (\<lambda>s. s_date s = d) (shown_rows db a b))"
    using assms(3) by (auto simp: view_of_after_set[OF assms(1)])
  also have "\<dots> = filter (\<lambda>v. v_date v = d) (map (\<lambda>s. the (view_of db s)) (shown_rows db a b))"
    using d[of _ db] by (simp add: filter_map comp_def cong: filter_cong)
  finally show ?thesis
    by (simp add: get_schedules_for_date_range_def filter_sort
        joined_schedules_shown[OF assms(2)]
        joined_schedules_shown[OF primary_keys_after_set[OF assms(1,2)]]
        shown_rows_after_set[OF assms(1)])
qed

text \<open>
  In a store with unique keys, every view \<^verbatim>\<open>get_schedules_for_date_range\<close>
  returns carries the name and colour of the responsibility that the weekly row of
  (\<^verbatim>\<open>date(d, 'weekday 0', '-6 days')\<close>, member) names, \<open>d\<close> the date of the view, and
  that date is the Monday on or before \<open>d\<close> (lemma \<open>sql_week_start_eq\<close>); both are None
  (NULL) when there is no such weekly row. Setting the responsibility of another week
  changes neither the resolution for a date \<open>d\<close> nor the views of that date.
\<close>

lemma responsibility_resolution:
  assumes "primary_keys db"
  shows "(\<forall>v \<in> set (get_schedules_for_date_range db a b).
        v_responsibility_name v
          = map_option p_name (resolved_responsibility db (v_date v) (v_member_id v))
      \<and> v_responsibility_color v
          = map_option p_color (resolved_responsibility db (v_date v) (v_member_id v))
      \<and> ((\<forall>week. sql_week_start (v_date v) = Some week \<longrightarrow>
             (week, v_member_id v) \<notin> set (map weekly_key (weekly_responsibilities db)))
          \<longrightarrow> v_responsibility_name v = None \<and> v_responsibility_color v = None))
    \<and> (sql_week_start d = Some week \<and> week \<noteq> later
        \<and> set_weekly_responsibility db later member_id r = Inr db'
        \<longrightarrow> resolved_responsibility db' d member_id = resolved_responsibility db d member_id
          \<and> filter (\<lambda>v. v_date v = d) (get_schedules_for_date_range db' a b)
            = filter (\<lambda>v. v_date v = d) (get_schedules_for_date_range db a b))"
proof -
  have 1: "v_responsibility_name v
          = map_option p_name (resolved_responsibility db (v_date v) (v_member_id v))
      \<and> v_responsibility_color v
          = map_option p_color (resolved_responsibility db (v_date v) (v_member_id v))"
    if "v \<in> set (get_schedules_for_date_range db a b)" for v
  proof -
    from view_has_shown_row[OF assms that]
    obtain s where "view_of db s = Some v" by blast
    from view_of_fields[OF this] show ?thesis by simp
  qed
  have 2: "resolved_responsibility db x member = None"
    if "\<forall>week. sql_week_start x = Some week \<longrightarrow>
        (week, member) \<notin> set (map weekly_key (weekly_responsibilities db))" for x member
  proof (cases "sql_week_start x")
    case None
    then show ?thesis by (simp add: resolved_responsibility_def)
  next
    case (Some week)
    with that have "(week, member) \<notin> set (map weekly_key (weekly_responsibilities db))"
      by simp
    then have "find (\<lambda>w. weekly_key w = (week, member)) (weekly_responsibilities db) = None"
      by (rule find_key_None[THEN iffD2])
    then show ?thesis by (simp add: resolved_responsibility_def Some)
  qed
  have 3: "resolved_responsibility db' d member_id = resolved_responsibility db d member_id
      \<and> filter (\<lambda>v. v_date v = d) (get_schedules_for_date_range db' a b)
        = filter (\<lambda>v. v_date v = d) (get_schedules_for_date_range db a b)"
    if "sql_week_start d = Some week" "week \<noteq> later"
      "set_weekly_responsibility db later member_id r = Inr db'"
    using that resolved_after_set[OF that(3), of d member_id] views_after_set[OF that(3) assms, of d a b]
    by simp
  show ?thesis
    using 1 2 3 by (metis (no_types, lifting) option.simps(8))
qed

lemma rota_primary_keys: "primary_keys rota_store"
  by (simp add: primary_keys_def example_defs weekly_key_def iso_dates)



lemma rota_set_next_week:
  "set_weekly_responsibility rota_store (iso 2024 6 10) 1 (Some 1) = Inr rota_store_next_week"
  by (simp add: set_weekly_responsibility_def upsert_weekly_def get_connection_def Let_def
      rota_store_next_week_def example_defs iso_dates weekly_key_def)

text \<open>Alice's responsibility of the week of 2024-06-03 is resolved for her schedule of
  2024-06-04, and stays so when the responsibility of the week of 2024-06-10 is set.\<close>

lemma responsibility_resolution_rota:
  "primary_keys rota_store
   \<and> sql_week_start (iso 2024 6 4) = Some (iso 2024 6 3)
   \<and> iso 2024 6 3 \<noteq> iso 2024 6 10
   \<and> set_weekly_responsibility rota_store (iso 2024 6 10) 1 (Some 1)
       = Inr rota_store_next_week
   \<and> resolved_responsibility rota_store (iso 2024 6 4) 1 = Some on_call
   \<and> resolved_responsibility rota_store_next_week (iso 2024 6 4) 1 = Some on_call
   \<and> map v_responsibility_name
        (get_schedules_for_date_range rota_store (iso 2024 6 3) (iso 2024 6 14))
      = [Some ''On-call'', None]
   \<and> filter (\<lambda>v. v_date v = iso 2024 6 4)
        (get_schedules_for_date_range rota_store_next_week (iso 2024 6 3) (iso 2024 6 14))
      = filter (\<lambda>v. v_date v = iso 2024 6 4)
        (get_schedules_for_date_range rota_store (iso 2024 6 3) (iso 2024 6 14))"
proof -
  have w: "sql_week_start (iso 2024 6 4) = Some (iso 2024 6 3)"
    "iso 2024 6 3 \<noteq> iso 2024 6 10"
    by (simp_all add: iso_dates rota_week_starts)
  have r: "resolved_responsibility rota_store (iso 2024 6 4) 1 = Some on_call"
    by (simp add: resolved_responsibility_def example_defs iso_dates rota_week_starts
        weekly_key_def)
  have n: "map v_responsibility_name
        (get_schedules_for_date_range rota_store (iso 2024 6 3) (iso 2024 6 14))
      = [Some ''On-call'', None]"
    by (simp add: rota_views)
  show ?thesis
    using rota_primary_keys w r n rota_set_next_week
      responsibility_resolution[OF rota_primary_keys,
        of "iso 2024 6 3" "iso 2024 6 14" "iso 2024 6 4" "iso 2024 6 3"
           "iso 2024 6 10" 1 "Some 1" rota_store_next_week]
    by simp
qed

text \<open>
  C3. Alice is scheduled on Tuesday 2024-06-11 and the store has no weekly row for her
  and Monday 2024-06-10. The view \<^verbatim>\<open>get_schedules_for_date_range\<close> returns for the
  schedule has the responsibility name None and the colour None, and the pages show
  that: \<^verbatim>\<open>schedule.get('responsibility_name', 'Unassigned')\<close> is None, not "Unassigned",
  and \<^verbatim>\<open>schedule.get('responsibility_color', ...)\<close> is None, not the default colour,
  because \<^verbatim>\<open>dict(row)\<close> holds both keys and a default is used for a missing key only.
  The specification asks for the name "Unassigned" and a neutral default colour, which
  is what these calls are written to give. The rest of the resolution is as specified
  (lemma \<open>responsibility_resolution\<close>).
\<close>

theorem missing_weekly_row_gives_null:
  "sql_week_start (iso 2024 6 11) = Some (iso 2024 6 10)
   \<and> (iso 2024 6 10, 1) \<notin> set (map weekly_key (weekly_responsibilities rota_store))
   \<and> map (\<lambda>v. (v_date v, v_member_id v, v_responsibility_name v, v_responsibility_color v))
        (get_schedules_for_date_range rota_store (iso 2024 6 10) (iso 2024 6 14))
      = [(iso 2024 6 11, 1, None, None)]
   \<and> map shown_responsibility_name
        (get_schedules_for_date_range rota_store (iso 2024 6 10) (iso 2024 6 14)) = [PyNone]
   \<and> map shown_responsibility_color
        (get_schedules_for_date_range rota_store (iso 2024 6 10) (iso 2024 6 14)) = [PyNone]
   \<and> map gantt_color
        (get_schedules_for_date_range rota_store (iso 2024 6 10) (iso 2024 6 14)) = [PyNone]
   \<and> PyNone \<noteq> PyStr ''Unassigned'' \<and> PyNone \<noteq> PyStr ''#cccccc''
   \<and> PyNone \<noteq> PyStr ''#808080''"
proof -
  have v: "get_schedules_for_date_range rota_store (iso 2024 6 10) (iso 2024 6 14) =
    [\<lparr>v_id = 2, v_date = iso 2024 6 11, v_shift_id = 1, v_member_id = 1,
      v_member_name = ''Alice'', v_role_name = None, v_shift_name = ''Early'',
      v_start_time = ''07:00'', v_end_time = ''15:00'',
      v_responsibility_name = None, v_responsibility_color = None\<rparr>]"
    by (simp add: get_schedules_for_date_range_def joined_schedules_def left_join_def
        make_view_def example_defs iso_dates example_texts rota_week_starts weekly_key_def)
  have w: "sql_week_start (iso 2024 6 11) = Some (iso 2024 6 10)"
    "(iso 2024 6 10, 1) \<notin> set (map weekly_key (weekly_responsibilities rota_store))"
    by (simp_all add: example_defs iso_dates rota_week_starts weekly_key_def)
  show ?thesis
    using w
    by (simp add: v shown_responsibility_name_def shown_responsibility_color_def
        gantt_color_def dict_get_def row_dict_def py_optional_def)
qed

subsection \<open>Bulk population\<close>

lemma strptime_Inr: "strptime s = Inr d \<Longrightarrow> names_date s \<and> day_of s = d"
  by (auto simp: strptime_def names_date_def day_of_def split: date_text.splits if_splits)

lemma strptime_names_date: "names_date s \<Longrightarrow> strptime s = Inr (day_of s) \<and> py_date (day_of s)"
  by (auto simp: strptime_def names_date_def day_of_def split: date_text.splits)

lemma append_absent_dates_eq:
  assumes "1 \<le> current" "current \<le> MAXORDINAL"
  shows "append_absent_dates current abs_end listed =
    (if current \<le> abs_end \<and> MAXORDINAL \<le> abs_end then Inl OverflowError
     else Inr (listed @ [current..abs_end]))"
  using assms
proof (induction current abs_end listed rule: append_absent_dates.induct)
  case (1 current abs_end listed)
  show ?case
  proof (cases "current \<le> abs_end")
    case False
    then show ?thesis by (simp add: append_absent_dates.simps[of current])
  next
    case True
    have step: "append_absent_dates current abs_end listed =
      (case date_add_days current 1 of
         Inl e \<Rightarrow> Inl e
       | Inr nxt \<Rightarrow> append_absent_dates nxt abs_end (listed @ [current]))"
      by (subst append_absent_dates.simps) (simp only: True if_True)
    show ?thesis
    proof (cases "current = MAXORDINAL")
      case m: True
      then have "date_add_days current 1 = Inl OverflowError"
        by (simp add: date_add_days_def)
      then have r: "append_absent_dates current abs_end listed = Inl OverflowError"
        by (simp only: step sum.case)
      show ?thesis
        unfolding r using True m by simp
    next
      case False
      then have n: "date_add_days current 1 = Inr (current + 1)"
        using "1.prems" by (simp add: date_add_days_def)
      have ih: "append_absent_dates (current + 1) abs_end (listed @ [current]) =
        (if current + 1 \<le> abs_end \<and> MAXORDINAL \<le> abs_end then Inl OverflowError
         else Inr ((listed @ [current]) @ [current + 1..abs_end]))"
        using "1.IH"[OF True n] "1.prems" False by simp
      have u: "[current..abs_end] = current # [current + 1..abs_end]"
        using True by (simp add: upto_rec1)
      have "append_absent_dates current abs_end listed
        = append_absent_dates (current + 1) abs_end (listed @ [current])"
        by (simp only: step n sum.case)
      then show ?thesis
        using True False "1.prems" by (simp only: ih u) auto
    qed
  qed
qed

lemma populate_members_eq:
  "populate_members members absence_map d st = Inr (insert_all st (attempts_on members absence_map d))"
proof (induction members absence_map d st rule: populate_members.induct)
  case (1 absence_map current_date st)
  then show ?case by (simp add: attempts_on_def)
next
  case (2 member_id shift_id rest absence_map current_date db created)
  show ?case
  proof (cases "is_absent absence_map member_id current_date")
    case True
    then show ?thesis using 2 by (simp add: attempts_on_def)
  next
    case False
    show ?thesis
    proof (cases "insert_schedule get_connection db (strftime current_date) shift_id member_id")
      case (Inl e)
      then have "e = IntegrityError"
        by (auto simp: insert_schedule_def Let_def split: if_splits)
      then show ?thesis
        using False Inl 2 by (simp add: attempts_on_def)
    next
      case (Inr p)
      then show ?thesis
        using False 2 by (cases p) (simp add: attempts_on_def)
    qed
  qed
qed

lemma insert_all_append:
  "insert_all st (xs @ ys) = insert_all (insert_all st xs) ys"
proof (induction xs arbitrary: st)
  case Nil
  then show ?case by simp
next
  case (Cons a xs)
  obtain db n where st: "st = (db, n)" by (cases st)
  obtain d sh m where a: "a = (d, sh, m)" by (cases a)
  show ?case
    by (simp add: st a Cons split: sum.splits prod.splits)
qed

lemma populate_dates_eq:
  assumes "1 \<le> current_date" "current_date \<le> MAXORDINAL"
  shows "populate_dates current_date end_dt members absence_map st =
    (if current_date \<le> end_dt \<and> MAXORDINAL \<le> end_dt then Inl OverflowError
     else Inr (insert_all st (attempts_between members absence_map current_date end_dt)))"
  using assms
proof (induction current_date end_dt members absence_map st rule: populate_dates.induct)
  case (1 current_date end_dt members absence_map st)
  show ?case
  proof (cases "current_date \<le> end_dt")
    case False
    then show ?thesis
      by (simp add: populate_dates.simps[of current_date] attempts_between_def)
  next
    case True
    define st' where "st' = (if weekday current_date < 5
      then insert_all st (attempts_on members absence_map current_date) else st)"
    have body: "(if weekday current_date < 5
        then populate_members members absence_map current_date st else Inr st) = Inr st'"
      by (simp add: st'_def populate_members_eq)
    have step: "populate_dates current_date end_dt members absence_map st =
      (case date_add_days current_date 1 of
         Inl e \<Rightarrow> Inl e
       | Inr nxt \<Rightarrow> populate_dates nxt end_dt members absence_map st')"
      by (subst populate_dates.simps) (simp only: True body if_True sum.case)
    show ?thesis
    proof (cases "current_date = MAXORDINAL")
      case m: True
      then have "date_add_days current_date 1 = Inl OverflowError"
        by (simp add: date_add_days_def)
      then have r: "populate_dates current_date end_dt members absence_map st = Inl OverflowError"
        by (simp only: step sum.case)
      show ?thesis
        unfolding r using True m by simp
    next
      case False
      then have n: "date_add_days current_date 1 = Inr (current_date + 1)"
        using "1.prems" by (simp add: date_add_days_def)
      have ih: "populate_dates (current_date + 1) end_dt members absence_map st' =
        (if current_date + 1 \<le> end_dt \<and> MAXORDINAL \<le> end_dt then Inl OverflowError
         else Inr (insert_all st'
                (attempts_between members absence_map (current_date + 1) end_dt)))"
        using "1.IH"[OF True body n] "1.prems" False by simp
      have u: "[current_date..end_dt] = current_date # [current_date + 1..end_dt]"
        using True by (simp add: upto_rec1)
      have "insert_all st (attempts_between members absence_map current_date end_dt)
        = insert_all st' (attempts_between members absence_map (current_date + 1) end_dt)"
        by (simp add: attempts_between_def u st'_def insert_all_append)
      moreover have "populate_dates current_date end_dt members absence_map st
        = populate_dates (current_date + 1) end_dt members absence_map st'"
        by (simp only: step n sum.case)
      ultimately show ?thesis
        using True False "1.prems" by (simp only: ih) auto
    qed
  qed
qed

lemma insert_all_noop:
  "set as \<subseteq> set (map schedule_key (schedules db)) \<Longrightarrow> insert_all (db, n) as = (db, n)"
proof (induction as)
  case Nil
  then show ?case by simp
next
  case (Cons a as)
  obtain d sh m where a: "a = (d, sh, m)" by (cases a)
  with Cons.prems have "(d, sh, m) \<in> set (map schedule_key (schedules db))" by simp
  then have "insert_schedule get_connection db d sh m = Inl IntegrityError"
    by (rule insert_schedule_present)
  with Cons show ?case by (simp add: a)
qed

lemma insert_all_result:
  "\<exists>new. insert_all (db, n) as =
      (db\<lparr>schedules := schedules db @ new,
          schedules_seq := schedules_seq db + int (length new)\<rparr>, n + length new)
    \<and> distinct (map schedule_key new)
    \<and> set (map schedule_key new) = set as - set (map schedule_key (schedules db))"
proof (induction as arbitrary: db n)
  case Nil
  show ?case by (rule exI[of _ "[]"]) simp
next
  case (Cons a as)
  obtain d sh m where a: "a = (d, sh, m)" by (cases a)
  show ?case
  proof (cases "(d, sh, m) \<in> set (map schedule_key (schedules db))")
    case True
    then have i: "insert_schedule get_connection db d sh m = Inl IntegrityError"
      by (rule insert_schedule_present)
    from Cons[of db n] obtain new where
      "insert_all (db, n) as =
        (db\<lparr>schedules := schedules db @ new,
            schedules_seq := schedules_seq db + int (length new)\<rparr>, n + length new)"
      "distinct (map schedule_key new)"
      "set (map schedule_key new) = set as - set (map schedule_key (schedules db))"
      by blast
    then show ?thesis
      using True by (intro exI[of _ new]) (auto simp: a i)
  next
    case False
    let ?row = "\<lparr>s_id = schedules_seq db + 1, s_date = d, s_shift_id = sh, s_member_id = m\<rparr>"
    let ?db = "db\<lparr>schedules := schedules db @ [?row], schedules_seq := schedules_seq db + 1\<rparr>"
    have i: "insert_schedule get_connection db d sh m = Inr (schedules_seq db + 1, ?db)"
      using False by (rule insert_schedule_fresh)
    from Cons[of ?db "n + 1"] obtain new where n:
      "insert_all (?db, n + 1) as =
        (?db\<lparr>schedules := schedules ?db @ new,
            schedules_seq := schedules_seq ?db + int (length new)\<rparr>, n + 1 + length new)"
      "distinct (map schedule_key new)"
      "set (map schedule_key new) = set as - set (map schedule_key (schedules ?db))"
      by blast
    have k: "schedule_key ?row = (d, sh, m)"
      by (simp add: schedule_key_def)
    show ?thesis
    proof (intro exI[of _ "?row # new"] conjI)
      show "insert_all (db, n) (a # as) =
        (db\<lparr>schedules := schedules db @ ?row # new,
            schedules_seq := schedules_seq db + int (length (?row # new))\<rparr>,
         n + length (?row # new))"
        using n(1) by (simp add: a i)
      show "distinct (map schedule_key (?row # new))"
        using n(2,3) by (simp add: k del: set_map)
      show "set (map schedule_key (?row # new))
          = set (a # as) - set (map schedule_key (schedules db))"
        using n(3) False by (auto simp: k a simp del: set_map)
    qed
  qed
qed

lemma is_absent_update:
  "is_absent (m(k \<mapsto> l)) member_id d \<longleftrightarrow>
     (if member_id = k then d \<in> set l else is_absent m member_id d)"
  by (simp add: is_absent_def)

lemma build_absence_map_absent:
  assumes "build_absence_map xs m = Inr m'"
  shows "is_absent m' member_id d \<longleftrightarrow>
    is_absent m member_id d
    \<or> (\<exists>(k, s, e) \<in> set xs. k = member_id \<and> day_of s \<le> d \<and> d \<le> day_of e)"
  using assms
proof (induction xs arbitrary: m)
  case Nil
  then show ?case by simp
next
  case (Cons x xs)
  obtain k s e where x: "x = (k, s, e)" by (cases x) auto
  define listed where "listed = (case m k of None \<Rightarrow> [] | Some l \<Rightarrow> l)"
  from Cons.prems obtain s' e' where
    p: "strptime s = Inr s'" "strptime e = Inr e'"
    by (auto simp: x split: sum.splits)
  from strptime_Inr[OF p(1)] strptime_Inr[OF p(2)]
  have d: "day_of s = s'" "day_of e = e'" and ps: "py_date s'"
    using strptime_names_date[of s] by auto
  from Cons.prems obtain l where
    l: "append_absent_dates s' e' listed = Inr l"
    and b: "build_absence_map xs (m(k \<mapsto> l)) = Inr m'"
    by (auto simp: x p listed_def split: sum.splits)
  have "1 \<le> s'" "s' \<le> MAXORDINAL" using ps by (simp_all add: py_date_def)
  from append_absent_dates_eq[OF this, of e' listed] l
  have l': "l = listed @ [s'..e']" by (auto split: if_splits)
  have "d \<in> set listed \<longleftrightarrow> is_absent m k d" for d
    by (simp add: listed_def is_absent_def split: option.splits)
  then have step: "is_absent (m(k \<mapsto> l)) member_id d \<longleftrightarrow>
      is_absent m member_id d \<or> (k = member_id \<and> day_of s \<le> d \<and> d \<le> day_of e)"
    by (auto simp: is_absent_update l' d)
  have "is_absent m' member_id d \<longleftrightarrow>
      is_absent (m(k \<mapsto> l)) member_id d
      \<or> (\<exists>(k, s, e) \<in> set xs. k = member_id \<and> day_of s \<le> d \<and> d \<le> day_of e)"
    by (rule Cons.IH[OF b])
  then show ?case
    unfolding step by (auto simp: x)
qed

lemma build_absence_map_total:
  assumes "\<forall>(k, s, e) \<in> set xs. names_date s \<and> names_date e \<and> day_of e < MAXORDINAL"
  shows "\<exists>m'. build_absence_map xs m = Inr m'"
  using assms
proof (induction xs arbitrary: m)
  case Nil
  then show ?case by simp
next
  case (Cons x xs)
  obtain k s e where x: "x = (k, s, e)" by (cases x) auto
  from Cons.prems have p: "names_date s" "names_date e" "day_of e < MAXORDINAL"
    by (simp_all add: x)
  note q = strptime_names_date[OF p(1)] strptime_names_date[OF p(2)]
  then have "1 \<le> day_of s" "day_of s \<le> MAXORDINAL" by (simp_all add: py_date_def)
  from append_absent_dates_eq[OF this] p(3)
  have "append_absent_dates (day_of s) (day_of e) listed = Inr (listed @ [day_of s..day_of e])"
    for listed
    by simp
  moreover have "\<forall>(k, s, e) \<in> set xs. names_date s \<and> names_date e \<and> day_of e < MAXORDINAL"
    using Cons.prems by simp
  ultimately show ?case
    using Cons.IH q by (simp add: x)
qed

lemma set_map_filter:
  "set (List.map_filter f xs) = {y. \<exists>x \<in> set xs. f x = Some y}"
  by (induction xs) (auto simp: List.map_filter_simps split: option.splits)

lemma set_members_with_shifts:
  "set (members_with_shifts db) =
    {(m_id m, sh) | m sh. m \<in> set (team_members db) \<and> m_active m \<and> m_shift_id m = Some sh}"
  unfolding members_with_shifts_def set_map_filter
  by (auto split: if_splits)

lemma set_attempts_between:
  "set (attempts_between members absence_map start_dt end_dt) =
    {(strftime d, sh, k) | d sh k. start_dt \<le> d \<and> d \<le> end_dt \<and> weekday d < 5
        \<and> (k, sh) \<in> set members \<and> \<not> is_absent absence_map k d}"
  unfolding attempts_between_def attempts_on_def
  by (simp add: image_iff) fastforce

lemma overlapping_absent:
  assumes "build_absence_map (overlapping_absences db start_date end_date) Map.empty = Inr m"
  shows "is_absent m member_id d \<longleftrightarrow> absent_on db start_date end_date member_id d"
  using build_absence_map_absent[OF assms, of member_id d]
  by (simp add: is_absent_def absent_on_def list_ex_iff)

lemma populate_returns:
  assumes "auto_populate_schedules_for_date_range db start_date end_date = Inr (created, db')"
  shows "\<exists>m. build_absence_map (overlapping_absences db start_date end_date) Map.empty = Inr m
    \<and> names_date start_date \<and> names_date end_date
    \<and> \<not> (day_of start_date \<le> day_of end_date \<and> MAXORDINAL \<le> day_of end_date)
    \<and> (db', created) = insert_all (db, 0)
         (attempts_between (members_with_shifts db) m (day_of start_date) (day_of end_date))"
proof -
  from assms obtain m where
    m: "build_absence_map (overlapping_absences db start_date end_date) Map.empty = Inr m"
    by (auto simp: auto_populate_schedules_for_date_range_def split: sum.splits)
  from assms obtain s e where
    se: "strptime start_date = Inr s" "strptime end_date = Inr e"
    by (auto simp: auto_populate_schedules_for_date_range_def split: sum.splits)
  note p = strptime_Inr[OF se(1)] strptime_Inr[OF se(2)]
  have b: "1 \<le> s" "s \<le> MAXORDINAL"
    using p(1) strptime_names_date[of start_date] by (auto simp: py_date_def)
  from assms have "populate_dates s e (members_with_shifts db) m (db, 0) = Inr (db', created)"
    by (auto simp: auto_populate_schedules_for_date_range_def m se split: sum.splits)
  then have "\<not> (s \<le> e \<and> MAXORDINAL \<le> e)
      \<and> (db', created) = insert_all (db, 0) (attempts_between (members_with_shifts db) m s e)"
    unfolding populate_dates_eq[OF b] by (auto split: if_splits)
  with m p show ?thesis by blast
qed

lemma populate_total:
  assumes "names_date start_date" "names_date end_date" "day_of end_date < MAXORDINAL"
    and "\<forall>(k, s, e) \<in> set (overlapping_absences db start_date end_date).
          names_date s \<and> names_date e \<and> day_of e < MAXORDINAL"
  shows "\<exists>created db'.
    auto_populate_schedules_for_date_range db start_date end_date = Inr (created, db')"
proof -
  from build_absence_map_total[OF assms(4)] obtain m where
    m: "build_absence_map (overlapping_absences db start_date end_date) Map.empty = Inr m"
    by blast
  note s = strptime_names_date[OF assms(1)] strptime_names_date[OF assms(2)]
  have b: "1 \<le> day_of start_date" "day_of start_date \<le> MAXORDINAL"
    using s by (simp_all add: py_date_def)
  show ?thesis
    using assms(3)
    by (cases "insert_all (db, 0)
         (attempts_between (members_with_shifts db) m (day_of start_date) (day_of end_date))")
      (simp add: auto_populate_schedules_for_date_range_def m s populate_dates_eq[OF b])
qed

text \<open>
  For a range of two texts that name dates of \<^verbatim>\<open>datetime.date\<close>, the end before
  9999-12-31, in a store where the absences the query selects for the range have such
  texts and end before 9999-12-31 too, \<^verbatim>\<open>auto_populate_schedules_for_date_range\<close>
  returns, appends rows to the schedules and changes nothing else, and returns the
  number of the rows it appended. The appended rows have distinct (date, shift, member)
  triples, and these are exactly the triples (text of d, default shift of m, m) with d a
  day of the range, d a Monday to Friday, m an active member with a default shift, m not
  absent on d, and the triple not in the table before. No appended row is on a Saturday
  or Sunday.
\<close>

theorem populate_inserts_weekday_rows:
  assumes "names_date start_date" "names_date end_date" "day_of end_date < MAXORDINAL"
    and "\<forall>(k, s, e) \<in> set (overlapping_absences db start_date end_date).
          names_date s \<and> names_date e \<and> day_of e < MAXORDINAL"
  shows "\<exists>created new.
      auto_populate_schedules_for_date_range db start_date end_date =
        Inr (created, db\<lparr>schedules := schedules db @ new,
                          schedules_seq := schedules_seq db + int (length new)\<rparr>)
    \<and> created = length new
    \<and> distinct (map schedule_key new)
    \<and> set (map schedule_key new) =
        {(strftime d, sh, k) | d sh k.
           day_of start_date \<le> d \<and> d \<le> day_of end_date \<and> weekday d < 5
           \<and> (\<exists>m \<in> set (team_members db). m_id m = k \<and> m_active m \<and> m_shift_id m = Some sh)
           \<and> \<not> absent_on db start_date end_date k d
           \<and> (strftime d, sh, k) \<notin> set (map schedule_key (schedules db))}
    \<and> (\<forall>s \<in> set new. weekday (day_of (s_date s)) < 5)"
proof -
  from populate_total[OF assms] obtain created db' where
    r: "auto_populate_schedules_for_date_range db start_date end_date = Inr (created, db')"
    by blast
  from populate_returns[OF r] obtain m where
    m: "build_absence_map (overlapping_absences db start_date end_date) Map.empty = Inr m"
    and i: "(db', created) = insert_all (db, 0)
         (attempts_between (members_with_shifts db) m (day_of start_date) (day_of end_date))"
    by blast
  let ?as = "attempts_between (members_with_shifts db) m (day_of start_date) (day_of end_date)"
  from insert_all_result[of db 0 ?as] obtain new where
    n: "insert_all (db, 0) ?as =
      (db\<lparr>schedules := schedules db @ new,
          schedules_seq := schedules_seq db + int (length new)\<rparr>, 0 + length new)"
    "distinct (map schedule_key new)"
    "set (map schedule_key new) = set ?as - set (map schedule_key (schedules db))"
    by blast
  have as: "set ?as = {(strftime d, sh, k) | d sh k.
           day_of start_date \<le> d \<and> d \<le> day_of end_date \<and> weekday d < 5
           \<and> (\<exists>m \<in> set (team_members db). m_id m = k \<and> m_active m \<and> m_shift_id m = Some sh)
           \<and> \<not> absent_on db start_date end_date k d}"
  proof -
    have pw: "(day_of start_date \<le> d \<and> d \<le> day_of end_date \<and> weekday d < 5
        \<and> (k, sh) \<in> {(m_id m, sh) | m sh.
              m \<in> set (team_members db) \<and> m_active m \<and> m_shift_id m = Some sh}
        \<and> \<not> is_absent m k d)
      \<longleftrightarrow> (day_of start_date \<le> d \<and> d \<le> day_of end_date \<and> weekday d < 5
        \<and> (\<exists>m \<in> set (team_members db). m_id m = k \<and> m_active m \<and> m_shift_id m = Some sh)
        \<and> \<not> absent_on db start_date end_date k d)" for d sh k
      using overlapping_absent[OF m, of k d] by auto
    show ?thesis
      by (simp only: set_attempts_between set_members_with_shifts pw)
  qed
  have keys: "set (map schedule_key new) =
        {(strftime d, sh, k) | d sh k.
           day_of start_date \<le> d \<and> d \<le> day_of end_date \<and> weekday d < 5
           \<and> (\<exists>m \<in> set (team_members db). m_id m = k \<and> m_active m \<and> m_shift_id m = Some sh)
           \<and> \<not> absent_on db start_date end_date k d
           \<and> (strftime d, sh, k) \<notin> set (map schedule_key (schedules db))}"
    unfolding n(3) as by blast
  have "weekday (day_of (s_date s)) < 5"
    if "s \<in> set new" for s
  proof -
    from that have "schedule_key s \<in> set (map schedule_key new)" by simp
    then show ?thesis
      unfolding keys by (auto simp: schedule_key_def strftime_def day_of_def)
  qed
  then show ?thesis
    using r i n(1,2) keys by auto
qed

text \<open>
  When \<^verbatim>\<open>auto_populate_schedules_for_date_range\<close> has returned, the same call on
  the store it left returns the count 0 and leaves that store as it is, so the
  schedules after two calls are the schedules after one: every insert of the second
  call fails on \<^verbatim>\<open>UNIQUE(date, shift_id, member_id)\<close>, the IntegrityError is passed over
  and not counted, and no error reaches the caller.
\<close>

theorem populate_twice:
  assumes "auto_populate_schedules_for_date_range db start_date end_date = Inr (created, db')"
  shows "auto_populate_schedules_for_date_range db' start_date end_date = Inr (0, db')"
proof -
  from populate_returns[OF assms] obtain m where
    m: "build_absence_map (overlapping_absences db start_date end_date) Map.empty = Inr m"
    and p: "names_date start_date" "names_date end_date"
    and o: "\<not> (day_of start_date \<le> day_of end_date \<and> MAXORDINAL \<le> day_of end_date)"
    and i: "(db', created) = insert_all (db, 0)
         (attempts_between (members_with_shifts db) m (day_of start_date) (day_of end_date))"
    by blast
  let ?as = "attempts_between (members_with_shifts db) m (day_of start_date) (day_of end_date)"
  from insert_all_result[of db 0 ?as] i obtain new where
    n: "db' = db\<lparr>schedules := schedules db @ new,
          schedules_seq := schedules_seq db + int (length new)\<rparr>"
    "set (map schedule_key new) = set ?as - set (map schedule_key (schedules db))"
    by (metis prod.inject)
  have same: "overlapping_absences db' start_date end_date
      = overlapping_absences db start_date end_date"
    "members_with_shifts db' = members_with_shifts db"
    by (simp_all add: n(1) overlapping_absences_def members_with_shifts_def)
  have "set ?as \<subseteq> set (map schedule_key (schedules db'))"
    using n(2) by (auto simp: n(1))
  then have noop: "insert_all (db', 0) ?as = (db', 0)"
    by (rule insert_all_noop)
  note s = strptime_names_date[OF p(1)] strptime_names_date[OF p(2)]
  have b: "1 \<le> day_of start_date" "day_of start_date \<le> MAXORDINAL"
    using s by (simp_all add: py_date_def)
  show ?thesis
    using o
    by (simp add: auto_populate_schedules_for_date_range_def same m s populate_dates_eq[OF b] noop)
qed

lemma ops_populate:
  "auto_populate_schedules_for_date_range ops_store (iso 2024 6 3) (iso 2024 6 7)
    = Inr (5, ops_week_store)"
proof -
  have p: "py_date 739040" "py_date 739044" "1 \<le> (739040::int)" "739040 \<le> MAXORDINAL"
    by (simp_all add: py_date_def MAXORDINAL_def)
  show ?thesis
    by (simp add: auto_populate_schedules_for_date_range_def overlapping_absences_def
        strptime_def p populate_dates_eq[OF p(3,4)] iso_dates more_dates MAXORDINAL_def
        attempts_between_def attempts_on_def members_with_shifts_def List.map_filter_simps
        weekday_def is_absent_def insert_schedule_def get_connection_def schedule_key_def
        strftime_def Let_def ops_week_store_def ops_store_def initial_store_def alice_def)
qed

theorem populate_week_of_2024_06_03:
  "names_date (iso 2024 6 3) \<and> names_date (iso 2024 6 7)
   \<and> day_of (iso 2024 6 7) < MAXORDINAL
   \<and> absences ops_store = []
   \<and> map weekday [ymd2ord 2024 6 3..ymd2ord 2024 6 7] = [0, 1, 2, 3, 4]
   \<and> (\<exists>new. auto_populate_schedules_for_date_range ops_store (iso 2024 6 3) (iso 2024 6 7)
          = Inr (5, ops_store\<lparr>schedules := new, schedules_seq := 5\<rparr>)
        \<and> map schedule_key new =
            [(iso 2024 6 3, 1, 1), (iso 2024 6 4, 1, 1), (iso 2024 6 5, 1, 1),
             (iso 2024 6 6, 1, 1), (iso 2024 6 7, 1, 1)]
        \<and> map (\<lambda>s. find (\<lambda>sh. sh_id sh = s_shift_id s) (shifts ops_store)) new
            = replicate 5 (Some \<lparr>sh_id = 1, sh_name = ''Early'', sh_start_time = ''07:00'',
                                 sh_end_time = ''15:00''\<rparr>)
        \<and> distinct (map schedule_key new))"
proof -
  have p: "names_date (iso 2024 6 3)" "names_date (iso 2024 6 7)"
    "day_of (iso 2024 6 7) < MAXORDINAL"
    by (simp_all add: iso_dates names_date_def day_of_def py_date_def MAXORDINAL_def)
  have e: "absences ops_store = []"
    by (simp add: ops_store_def initial_store_def)
  have a: "\<forall>(k, s, e) \<in> set (overlapping_absences ops_store (iso 2024 6 3) (iso 2024 6 7)).
      names_date s \<and> names_date e \<and> day_of e < MAXORDINAL"
    by (simp add: e overlapping_absences_def)
  have w: "map weekday [ymd2ord 2024 6 3..ymd2ord 2024 6 7] = [0, 1, 2, 3, 4]"
    by (simp add: rota_dates more_dates weekday_def)
  from populate_inserts_weekday_rows[OF p a] obtain created new where
    n: "auto_populate_schedules_for_date_range ops_store (iso 2024 6 3) (iso 2024 6 7) =
        Inr (created, ops_store\<lparr>schedules := schedules ops_store @ new,
               schedules_seq := schedules_seq ops_store + int (length new)\<rparr>)"
      "created = length new" "distinct (map schedule_key new)"
    by blast
  have s: "schedules ops_store = []"
    by (simp add: ops_store_def initial_store_def)
  from n(1) have "Inr (5, ops_week_store) =
      (Inr (created, ops_store\<lparr>schedules := schedules ops_store @ new,
               schedules_seq := schedules_seq ops_store + int (length new)\<rparr>)
        :: error + nat \<times> store)"
    by (simp only: ops_populate)
  then have "ops_week_store = ops_store\<lparr>schedules := schedules ops_store @ new,
               schedules_seq := schedules_seq ops_store + int (length new)\<rparr>"
    by (simp only: sum.inject prod.inject)
  then have "schedules ops_week_store = schedules (ops_store\<lparr>schedules := schedules ops_store @ new,
               schedules_seq := schedules_seq ops_store + int (length new)\<rparr>)"
    by (rule arg_cong[where f = schedules])
  then have new: "new = schedules ops_week_store"
    by (simp add: s)
  have k: "map schedule_key (schedules ops_week_store) =
            [(iso 2024 6 3, 1, 1), (iso 2024 6 4, 1, 1), (iso 2024 6 5, 1, 1),
             (iso 2024 6 6, 1, 1), (iso 2024 6 7, 1, 1)]"
    by (simp add: ops_week_store_def schedule_key_def)
  have f: "map (\<lambda>s. find (\<lambda>sh. sh_id sh = s_shift_id s) (shifts ops_store))
      (schedules ops_week_store)
      = replicate 5 (Some \<lparr>sh_id = 1, sh_name = ''Early'', sh_start_time = ''07:00'',
                            sh_end_time = ''15:00''\<rparr>)"
    by (simp add: ops_week_store_def ops_store_def initial_store_def eval_nat_numeral)
  have r: "auto_populate_schedules_for_date_range ops_store (iso 2024 6 3) (iso 2024 6 7)
      = Inr (5, ops_store\<lparr>schedules := schedules ops_week_store, schedules_seq := 5\<rparr>)"
    by (simp add: ops_populate ops_week_store_def)
  have d: "distinct (map schedule_key (schedules ops_week_store))"
    using n(3) unfolding new .
  show ?thesis
    by (intro conjI exI[of _ "schedules ops_week_store"] p e w r k f d)
qed

text \<open>
  C1. On the range of the single day 9999-12-31, a Friday, with Alice active, on the
  shift Early, never absent and not yet scheduled, \<^verbatim>\<open>auto_populate_schedules_for_date_range\<close>
  raises OverflowError where it is to insert one row and return 1: after the last day
  the loop steps to the day after \<^verbatim>\<open>date.max\<close>, and nothing is committed. On the ranges
  that end earlier the rows and the count are as specified (lemma
  \<open>populate_inserts_weekday_rows\<close>), and the week of 2024-06-03 gives the count 5
  (\<open>populate_week_of_2024_06_03\<close>).
\<close>

theorem populate_overflows_at_date_max:
  "py_date (ymd2ord 9999 12 31) \<and> weekday (ymd2ord 9999 12 31) = 4
   \<and> text_of (iso 9999 12 31) = ''9999-12-31''
   \<and> members_with_shifts ops_store = [(1, 1)] \<and> absences ops_store = []
   \<and> schedules ops_store = []
   \<and> auto_populate_schedules_for_date_range ops_store (iso 9999 12 31) (iso 9999 12 31)
       = Inl OverflowError"
proof -
  have p: "py_date 3652059" "1 \<le> (3652059::int)" "3652059 \<le> MAXORDINAL"
    by (simp_all add: py_date_def MAXORDINAL_def)
  show ?thesis
    by (simp add: auto_populate_schedules_for_date_range_def overlapping_absences_def
        strptime_def p populate_dates_eq[OF p(2,3)] iso_dates more_dates example_texts
        MAXORDINAL_def weekday_def members_with_shifts_def List.map_filter_simps ops_store_def
        initial_store_def alice_def)
qed

theorem populate_week_twice:
  "auto_populate_schedules_for_date_range ops_store (iso 2024 6 3) (iso 2024 6 7)
     = Inr (5, ops_week_store)
   \<and> length (schedules ops_week_store) = 5
   \<and> auto_populate_schedules_for_date_range ops_week_store (iso 2024 6 3) (iso 2024 6 7)
     = Inr (0, ops_week_store)"
  using ops_populate populate_twice[OF ops_populate]
  by (simp add: ops_week_store_def)

text \<open>
  C2. On the range 9999-12-27 to 9999-12-31, the last Monday to Friday of
  \<^verbatim>\<open>datetime.date\<close>, the first call raises OverflowError and commits nothing, so the
  second call is the same call on the same store and raises again: the schedules after
  two calls are those after one, but the second call does not return the count 0. It is
  the step past \<^verbatim>\<open>date.max\<close> of C1. Wherever the first call returns, the second
  returns 0 and changes nothing, its inserts failing unseen on the UNIQUE constraint
  (\<open>populate_twice\<close>, and \<open>populate_week_twice\<close> for the week of 2024-06-03).
\<close>

theorem populate_raises_twice_at_date_max:
  "py_date (ymd2ord 9999 12 27) \<and> py_date (ymd2ord 9999 12 31)
   \<and> map weekday [ymd2ord 9999 12 27..ymd2ord 9999 12 31] = [0, 1, 2, 3, 4]
   \<and> auto_populate_schedules_for_date_range ops_store (iso 9999 12 27) (iso 9999 12 31)
       = Inl OverflowError
   \<and> (\<forall>db'. auto_populate_schedules_for_date_range ops_store
               (iso 9999 12 27) (iso 9999 12 31) \<noteq> Inr (0, db'))"
proof -
  have p: "py_date 3652055" "py_date 3652059" "1 \<le> (3652055::int)" "3652055 \<le> MAXORDINAL"
    by (simp_all add: py_date_def MAXORDINAL_def)
  have r: "auto_populate_schedules_for_date_range ops_store (Padded 3652055) (Padded 3652059)
      = Inl OverflowError"
    by (simp add: auto_populate_schedules_for_date_range_def overlapping_absences_def
        strptime_def p populate_dates_eq[OF p(3,4)] MAXORDINAL_def ops_store_def
        initial_store_def)
  show ?thesis
    using p by (simp add: iso_dates more_dates r weekday_def)
qed

subsection \<open>Conflict detection\<close>

lemma check_conflicts_eq:
  assumes "\<forall>v \<in> set vs. names_date (v_date v)"
  shows "check_conflicts vs absent_dates conflicts =
    Inr (conflicts @ map conflict_line
      (filter (\<lambda>v. is_absent absent_dates (v_member_id v) (day_of (v_date v))) vs))"
  using assms
  by (induction vs arbitrary: conflicts) (simp_all add: strptime_names_date conflict_line_def)

text \<open>
  For schedule views and absences whose texts name dates of \<^verbatim>\<open>datetime.date\<close>, with
  every absence ending before 9999-12-31, the conflict block of \<^verbatim>\<open>show_dashboard\<close>
  returns, in the order of the schedules, one line "member on date" for every schedule
  whose day lies between the start and the end, both included, of an absence of the same
  member, and no other line.
\<close>

theorem conflicts_are_absent_schedules:
  assumes "\<forall>a \<in> set all_absences.
      names_date (a_start_date a) \<and> names_date (a_end_date a)
      \<and> day_of (a_end_date a) < MAXORDINAL"
    and "\<forall>v \<in> set all_schedules. names_date (v_date v)"
  shows "scheduling_conflicts all_schedules all_absences =
    Inr (map conflict_line
      (filter (\<lambda>v. \<exists>a \<in> set all_absences. a_member_id a = v_member_id v
                  \<and> day_of (a_start_date a) \<le> day_of (v_date v)
                  \<and> day_of (v_date v) \<le> day_of (a_end_date a))
         all_schedules))"
proof (cases "all_schedules \<noteq> [] \<and> all_absences \<noteq> []")
  case False
  then show ?thesis
    by (auto simp: scheduling_conflicts_def)
next
  case True
  let ?xs = "map (\<lambda>a. (a_member_id a, a_start_date a, a_end_date a)) all_absences"
  have "\<forall>(k, s, e) \<in> set ?xs. names_date s \<and> names_date e \<and> day_of e < MAXORDINAL"
    using assms(1) by auto
  from build_absence_map_total[OF this] obtain m where
    m: "build_absence_map ?xs Map.empty = Inr m" by blast
  have "is_absent m k d \<longleftrightarrow>
      (\<exists>a \<in> set all_absences. a_member_id a = k \<and> day_of (a_start_date a) \<le> d
          \<and> d \<le> day_of (a_end_date a))"
    for k d
    using build_absence_map_absent[OF m, of k d] by (auto simp: is_absent_def)
  then show ?thesis
    using True by (simp add: scheduling_conflicts_def m check_conflicts_eq[OF assms(2)])
qed

theorem conflicts_of_absence_2024_06_03:
  "names_date (iso 2024 6 3) \<and> names_date (iso 2024 6 5) \<and> day_of (iso 2024 6 5) < MAXORDINAL
   \<and> names_date (iso 2024 6 4) \<and> names_date (iso 2024 6 6)
   \<and> scheduling_conflicts
        [alice_shift_on 1 (iso 2024 6 4), alice_shift_on 2 (iso 2024 6 6)]
        [alice_absence (iso 2024 6 3) (iso 2024 6 5)]
      = Inr [''Alice on 2024-06-04'']
   \<and> scheduling_conflicts [alice_shift_on 2 (iso 2024 6 6)]
        [alice_absence (iso 2024 6 3) (iso 2024 6 5)] = Inr []"
proof -
  have p: "names_date (iso 2024 6 3)" "names_date (iso 2024 6 5)"
    "day_of (iso 2024 6 5) < MAXORDINAL" "names_date (iso 2024 6 4)" "names_date (iso 2024 6 6)"
    by (simp_all add: iso_dates names_date_def day_of_def py_date_def MAXORDINAL_def)
  have a: "\<forall>a \<in> set [alice_absence (iso 2024 6 3) (iso 2024 6 5)].
      names_date (a_start_date a) \<and> names_date (a_end_date a)
      \<and> day_of (a_end_date a) < MAXORDINAL"
    using p by (simp add: alice_absence_def)
  have v: "\<forall>v \<in> set [alice_shift_on 1 (iso 2024 6 4), alice_shift_on 2 (iso 2024 6 6)].
      names_date (v_date v)"
    "\<forall>v \<in> set [alice_shift_on 2 (iso 2024 6 6)]. names_date (v_date v)"
    using p by (simp_all add: alice_shift_on_def)
  have l: "conflict_line (alice_shift_on 1 (iso 2024 6 4)) = ''Alice on 2024-06-04''"
    by (simp add: conflict_line_def alice_shift_on_def iso_dates example_texts)
  show ?thesis
    using p conflicts_are_absent_schedules[OF a v(1)] conflicts_are_absent_schedules[OF a v(2)]
    by (simp add: l) (simp add: alice_absence_def alice_shift_on_def iso_dates day_of_def)
qed

text \<open>
  C9. An absence of Alice from 2024-06-03 to 9999-12-31 covers her schedule of
  2024-06-04, and the conflict block raises OverflowError where it is to report "Alice
  on 2024-06-04": the loop over the days of the absence steps to the day after
  \<^verbatim>\<open>date.max\<close>. For absences that end earlier the lines are as specified (lemma
  \<open>conflicts_are_absent_schedules\<close>): the absence 2024-06-03 to 2024-06-05 gives the one
  line for 2024-06-04 and none for 2024-06-06 (\<open>conflicts_of_absence_2024_06_03\<close>).
\<close>

theorem open_ended_absence_overflows:
  "py_date (ymd2ord 2024 6 3) \<and> py_date (ymd2ord 9999 12 31) \<and> py_date (ymd2ord 2024 6 4)
   \<and> ymd2ord 2024 6 3 \<le> ymd2ord 2024 6 4 \<and> ymd2ord 2024 6 4 \<le> ymd2ord 9999 12 31
   \<and> scheduling_conflicts [alice_shift_on 1 (iso 2024 6 4)]
        [alice_absence (iso 2024 6 3) (iso 9999 12 31)] = Inl OverflowError"
proof -
  have p: "py_date 739040" "py_date 3652059" "py_date 739041"
    by (simp_all add: py_date_def MAXORDINAL_def)
  have "append_absent_dates 739040 3652059 [] = Inl OverflowError"
    by (subst append_absent_dates_eq) (simp_all add: MAXORDINAL_def)
  then show ?thesis
    using p
    by (simp add: scheduling_conflicts_def alice_absence_def alice_shift_on_def rota_dates
        iso_dates more_dates strptime_def)
qed

end
